theory Spec2Isabelle
  imports Main
begin

section \<open>JavaScript values and strings\<close>

text \<open>
  A TypeScript expression of type \<open>string\<close> can still evaluate to \<open>null\<close> or
  \<open>undefined\<close>; \<open>Issue.formatText\<close> tells the three apart, so they are three
  constructors.  Where the source only ever tests for \<open>undefined\<close> (optional fields,
  a missing map entry) the model uses \<open>option\<close>, with \<open>None\<close> for \<open>undefined\<close>.
\<close>

datatype 'a nullable = Null | Undefined | Defined 'a

text \<open>
  Run-time failures of the source are values.  \<open>TypeError\<close> is what reading a property of
  \<open>undefined\<close> (or destructuring it, or \<open>Object.values(undefined)\<close>) throws;
  \<open>HttpError\<close> is an error delivered by the remote collaborator.
\<close>

datatype error = TypeError | HttpError string

text \<open>
  Strings are lists of 8-bit characters.  \<open>isWhiteSpace\<close> is the set of characters
  that \<open>String.prototype.trim\<close> removes, restricted to code units below 256:
  TAB, LF, VT, FF, CR, space and the no-break space.
\<close>

definition isWhiteSpace :: "char \<Rightarrow> bool" where
  "isWhiteSpace c = (of_char c \<in> {9, 10, 11, 12, 13, 32, 160 :: nat})"

definition trim :: "string \<Rightarrow> string" where
  "trim s = rev (dropWhile isWhiteSpace (rev (dropWhile isWhiteSpace s)))"

text \<open>
  \<open>s.split(re)\<close> for a regular expression \<open>re\<close> that matches exactly one character
  of a class: the pieces between the separators, one more piece than separators, so
  that the empty string gives one empty piece.
\<close>

fun splitChars :: "(char \<Rightarrow> bool) \<Rightarrow> string \<Rightarrow> string list" where
  "splitChars sep [] = [[]]"
| "splitChars sep (c # cs) =
     (if sep c then [] # splitChars sep cs
      else (case splitChars sep cs of
              [] \<Rightarrow> [[c]]
            | piece # pieces \<Rightarrow> (c # piece) # pieces))"

text \<open>The character class \<open>[\n\r]\<close> of \<open>newLinesRegex\<close>.\<close>

definition newLinesRegex :: "char \<Rightarrow> bool" where
  "newLinesRegex c = (of_char c \<in> {10, 13 :: nat})"

text \<open>
  Unary plus on a string and the comparison with zero, as in \<open>+issue.pending > 0\<close>.
  \<open>+s\<close> converts the string by the grammar of numeric string literals: white space
  around the literal is dropped and the empty literal is zero; a literal is
  \<open>0x\<close>, \<open>0o\<close> or \<open>0b\<close> with digits of that radix, or an optional sign before
  \<open>Infinity\<close> or decimal digits with an optional fraction and an optional exponent;
  any other string converts to \<open>NaN\<close>.  \<open>numericValue\<close> is the value of the
  literal before rounding: \<open>Decimal negative m e\<close> stands for \<open>m\<close> times ten to the
  power \<open>e\<close>, negated when \<open>negative\<close>.  The number that JavaScript compares is the
  double nearest to it (ties to even; the conversion is taken to be correctly
  rounded), which is greater than zero exactly when the value is greater than two to
  the power -1075, half the least positive double.
\<close>

datatype numericValue = NotANumber | Infinite bool | Decimal bool nat int

definition isDecimalDigit :: "char \<Rightarrow> bool" where
  "isDecimalDigit c = (48 \<le> (of_char c :: nat) \<and> (of_char c :: nat) \<le> 57)"

definition digitValue :: "char \<Rightarrow> nat" where
  "digitValue c =
     (let n = of_char c :: nat in
      if 48 \<le> n \<and> n \<le> 57 then n - 48
      else if 97 \<le> n \<and> n \<le> 102 then n - 87
      else if 65 \<le> n \<and> n \<le> 70 then n - 55
      else 16)"

definition isDigitOfRadix :: "nat \<Rightarrow> char \<Rightarrow> bool" where
  "isDigitOfRadix radix c = (digitValue c < radix)"

definition digitsValue :: "nat \<Rightarrow> string \<Rightarrow> nat" where
  "digitsValue radix digits = foldl (\<lambda>acc c. acc * radix + digitValue c) 0 digits"

definition decimalDigits :: "string \<Rightarrow> nat option" where
  "decimalDigits s =
     (if s \<noteq> [] \<and> list_all isDecimalDigit s then Some (digitsValue 10 s) else None)"

text \<open>The text after the mantissa: nothing, or \<open>e\<close> or \<open>E\<close> and a signed integer.\<close>

definition exponentPart :: "string \<Rightarrow> int option" where
  "exponentPart s =
     (case s of
        [] \<Rightarrow> Some 0
      | c # t \<Rightarrow>
          (if c = CHR ''e'' \<or> c = CHR ''E''
           then (case t of
                   [] \<Rightarrow> None
                 | d # u \<Rightarrow>
                     (if d = CHR ''+'' then map_option int (decimalDigits u)
                      else if d = CHR ''-'' then map_option (\<lambda>n. - int n) (decimalDigits u)
                      else map_option int (decimalDigits t)))
           else None))"

definition unsignedDecimalLiteral :: "bool \<Rightarrow> string \<Rightarrow> numericValue" where
  "unsignedDecimalLiteral negative s =
     (if s = ''Infinity'' then Infinite negative
      else
        (let whole = takeWhile isDecimalDigit s; afterWhole = dropWhile isDecimalDigit s in
         case afterWhole of
           [] \<Rightarrow> (if whole = [] then NotANumber else Decimal negative (digitsValue 10 whole) 0)
         | c # t \<Rightarrow>
             (if c = CHR ''.''
              then (let fraction = takeWhile isDecimalDigit t;
                        afterFraction = dropWhile isDecimalDigit t in
                    if whole = [] \<and> fraction = [] then NotANumber
                    else (case exponentPart afterFraction of
                            None \<Rightarrow> NotANumber
                          | Some e \<Rightarrow>
                              Decimal negative (digitsValue 10 (whole @ fraction))
                                (e - int (length fraction))))
              else if whole = [] then NotANumber
              else (case exponentPart afterWhole of
                      None \<Rightarrow> NotANumber
                    | Some e \<Rightarrow> Decimal negative (digitsValue 10 whole) e))))"

definition nonDecimalIntegerLiteral :: "string \<Rightarrow> numericValue option" where
  "nonDecimalIntegerLiteral s =
     (case s of
        z # x # digits \<Rightarrow>
          (let radix = (if x = CHR ''x'' \<or> x = CHR ''X'' then 16
                        else if x = CHR ''o'' \<or> x = CHR ''O'' then 8
                        else if x = CHR ''b'' \<or> x = CHR ''B'' then 2
                        else (0 :: nat))
           in if z = CHR ''0'' \<and> digits \<noteq> [] \<and> list_all (isDigitOfRadix radix) digits
              then Some (Decimal False (digitsValue radix digits) 0)
              else None)
      | _ \<Rightarrow> None)"

definition toNumber :: "string \<Rightarrow> numericValue" where
  "toNumber s =
     (let literal = trim s in
      case literal of
        [] \<Rightarrow> Decimal False 0 0
      | c # t \<Rightarrow>
          (case nonDecimalIntegerLiteral literal of
             Some v \<Rightarrow> v
           | None \<Rightarrow>
               (if c = CHR ''+'' then unsignedDecimalLiteral False t
                else if c = CHR ''-'' then unsignedDecimalLiteral True t
                else unsignedDecimalLiteral False literal)))"

definition greaterThanZero :: "numericValue \<Rightarrow> bool" where
  "greaterThanZero v =
     (case v of
        NotANumber \<Rightarrow> False
      | Infinite negative \<Rightarrow> \<not> negative
      | Decimal negative m e \<Rightarrow>
          \<not> negative \<and> (if 0 \<le> e then 0 < m else 10 ^ nat (- e) < m * 2 ^ 1075))"

section \<open>issue.model.ts: text clean-up\<close>

definition formatText :: "string nullable \<Rightarrow> string nullable" where
  "formatText text =
     (case text of
        Null \<Rightarrow> Null
      | Undefined \<Rightarrow> Undefined
      | Defined t \<Rightarrow>
          (let textSplitArray = splitChars newLinesRegex t in
           if length (filter (\<lambda>split. trim split \<noteq> []) textSplitArray) > 0
           then Defined (t @ [CHR 0x0A, CHR 0x0A])
           else Defined t))"

definition orDefaultString :: "string nullable \<Rightarrow> string \<Rightarrow> string" where
  "orDefaultString stringA def =
     (case stringA of
        Null \<Rightarrow> def
      | Undefined \<Rightarrow> def
      | Defined a \<Rightarrow> (if a = [] then def else if length a \<noteq> 0 then a else def))"

definition updateDescription :: "string nullable \<Rightarrow> string" where
  "updateDescription description =
     orDefaultString (formatText description) ''No details provided by bug reporter.''"

definition updateTeamResponse :: "string nullable \<Rightarrow> string" where
  "updateTeamResponse teamResponse =
     orDefaultString (formatText teamResponse) ''No details provided by team.''"

section \<open>The external record and the value objects around it\<close>

text \<open>
  The declarations of \<open>GithubIssue\<close>, \<open>GithubLabel\<close>, \<open>GithubComment\<close>,
  \<open>HiddenData\<close>, \<open>Milestone\<close>, \<open>Team\<close>, \<open>IssueComment\<close>, \<open>IssueDispute\<close> and
  \<open>TesterResponse\<close> are imported by the two source files but are not part of them.
  Each is modelled by the members that the source files read.  The fields of the external
  record carry the prefix \<open>gh_\<close>, since the \<open>Issue\<close> built from it has fields of the
  same names.
\<close>

record GithubUser =
  login :: string

record GithubLabel =
  name :: string

record GithubComment =
  comment_id :: nat
  comment_body :: string

record GithubIssue =
  gh_id :: string
  gh_number :: nat
  gh_title :: string
  gh_body :: string
  gh_created_at :: "string option"
  gh_updated_at :: "string option"
  gh_closed_at :: "string option"
  gh_milestone :: "string option"
  gh_state :: string
  gh_issueOrPr :: string
  gh_user :: GithubUser
  gh_assignees :: "GithubUser list"
  gh_labels :: "GithubLabel list"
  gh_comments :: "GithubComment list"

record HiddenData =
  originalStringWithoutHiddenData :: "string nullable"
  data :: "(string \<times> string) list"

datatype Milestone = DefaultMilestone | Milestone string

record Team =
  team_id :: string

record IssueComment =
  issueComment_id :: nat
  issueComment_description :: string

record IssueDispute =
  dispute_title :: string
  dispute_description :: string
  tutorResponse :: string

type_synonym TesterResponse = string

text \<open>
  What the tutor-moderation templates hand to \<open>Issue\<close>.  The template classes are not
  part of the source files; the members read there are \<open>comment\<close> and
  \<open>moderation.disputesToResolve\<close> of \<open>TutorModerationTodoTemplate\<close>, and
  \<open>description.content\<close>, \<open>teamResponse.content\<close> and \<open>dispute.disputes\<close> of
  \<open>TutorModerationIssueTemplate\<close>.  A section that the parser did not find is
  \<open>undefined\<close>.
\<close>

record Section =
  content :: string

record ModerationSection =
  disputesToResolve :: "IssueDispute list"

record DisputeSection =
  disputes :: "IssueDispute list"

record TodoTemplate =
  todo_comment :: "IssueComment option"
  moderation :: "ModerationSection option"

record IssueTemplate =
  template_description :: "Section option"
  template_teamResponse :: "Section option"
  dispute :: "DisputeSection option"

text \<open>
  What the two source files call and do not contain is a parameter of the model: the
  constructor of \<open>HiddenData\<close> (the decoder of the hidden block of a body),
  \<open>moment(t).format('lll')\<close>, and the constructors of the two tutor-moderation
  templates (the parsers).
\<close>

record Externals =
  newHiddenData :: "string \<Rightarrow> HiddenData"
  momentFormat :: "string option \<Rightarrow> string"
  newTutorModerationTodoTemplate :: "GithubComment list \<Rightarrow> TodoTemplate"
  newTutorModerationIssueTemplate :: "GithubIssue \<Rightarrow> IssueTemplate"

text \<open>
  Modelled from the spec: \<open>GithubLabel.LABELS\<close>, the table of label namespaces, is
  missing from the source files.  The spec's label codec writes a categorical
  attribute as \<open><namespace>.<value>\<close> and a flag as its bare token, and
  \<open>createLabelsForIssue\<close> uses these six namespaces.
\<close>

definition LABELS_severity :: string where "LABELS_severity = ''severity''"
definition LABELS_type :: string where "LABELS_type = ''type''"
definition LABELS_response :: string where "LABELS_response = ''response''"
definition LABELS_duplicated :: string where "LABELS_duplicated = ''duplicate''"
definition LABELS_status :: string where "LABELS_status = ''status''"
definition LABELS_pending :: string where "LABELS_pending = ''pending''"

text \<open>
  Modelled from the spec: \<open>GithubIssue.findLabel\<close> is missing from the source files.
  It is the spec's \<open>fromLabels\<close> for one namespace: for a categorical namespace the
  value of the first label \<open><namespace>.<value>\<close>, for a flag the token itself when a
  label of that exact name is present; \<open>undefined\<close> when the list has no such label.
\<close>

fun stripPrefix :: "string \<Rightarrow> string \<Rightarrow> string option" where
  "stripPrefix [] s = Some s"
| "stripPrefix (p # ps) [] = None"
| "stripPrefix (p # ps) (c # cs) = (if p = c then stripPrefix ps cs else None)"

fun firstSome :: "('a \<Rightarrow> 'b option) \<Rightarrow> 'a list \<Rightarrow> 'b option" where
  "firstSome f [] = None"
| "firstSome f (x # xs) = (case f x of Some y \<Rightarrow> Some y | None \<Rightarrow> firstSome f xs)"

definition findLabel :: "GithubIssue \<Rightarrow> string \<Rightarrow> bool \<Rightarrow> string option" where
  "findLabel record labelName isCategorical =
     (if isCategorical
      then firstSome (\<lambda>l. stripPrefix (labelName @ ''.'') (name l)) (gh_labels record)
      else firstSome (\<lambda>l. if name l = labelName then Some labelName else None)
             (gh_labels record))"

section \<open>issue.model.ts: the Issue class\<close>

text \<open>
  The field \<open>id\<close> is \<open>id_issue\<close> here (\<open>id\<close> is the identity function of HOL).  An
  optional field, and every field that the constructor leaves unassigned, has an
  \<open>option\<close> type.
\<close>

record Issue =
  globalId :: string
  id_issue :: nat
  created_at :: string
  githubIssue :: "GithubIssue option"
  githubComments :: "GithubComment list option"
  title :: string
  description :: string
  hiddenDataInDescription :: HiddenData
  updated_at :: string
  closed_at :: string
  milestone :: Milestone
  state :: string
  issueOrPr :: string
  author :: string
  severity :: "string option"
  type :: "string option"
  responseTag :: "string option"
  duplicated :: "bool option"
  status :: "string option"
  pending :: "string option"
  unsure :: "bool option"
  teamAssigned :: "Team option"
  assignees :: "string list option"
  labels :: "string list option"
  githubLabels :: "GithubLabel list option"
  duplicateOf :: "nat option"
  teamResponse :: "string option"
  testerResponses :: "TesterResponse list option"
  testerDisagree :: "bool option"
  issueComment :: "IssueComment option"
  issueDisputes :: "IssueDispute list option"
  teamChosenSeverity :: "string option"
  teamChosenType :: "string option"
  teamAccepted :: "bool option"
  teamResponseError :: "bool option"
  testerResponseError :: "bool option"

text \<open>
  The constructor.  Its parameter has the type \<open>GithubIssue\<close>, but \<open>clone\<close> passes
  \<open>this.githubIssue\<close>, which may be \<open>undefined\<close>: the first statement then reads
  \<open>githubIssue.id\<close> of \<open>undefined\<close> and throws.  The assignment to \<open>this.githubIssue\<close>
  is commented out in the source, so the field stays \<open>undefined\<close>.
\<close>

definition new_Issue :: "'x Externals_scheme \<Rightarrow> GithubIssue option \<Rightarrow> error + Issue" where
  "new_Issue ext arg =
     (case arg of
        None \<Rightarrow> Inl TypeError
      | Some g \<Rightarrow>
          (let hidden = newHiddenData ext (gh_body g) in
           Inr \<lparr> globalId = gh_id g,
                 id_issue = gh_number g,
                 created_at = momentFormat ext (gh_created_at g),
                 githubIssue = None,
                 githubComments = None,
                 title = gh_title g,
                 description = updateDescription (originalStringWithoutHiddenData hidden),
                 hiddenDataInDescription = hidden,
                 updated_at = momentFormat ext (gh_updated_at g),
                 closed_at = momentFormat ext (gh_closed_at g),
                 milestone = (case gh_milestone g of
                                Some m \<Rightarrow> Milestone m
                              | None \<Rightarrow> DefaultMilestone),
                 state = gh_state g,
                 issueOrPr = gh_issueOrPr g,
                 author = login (gh_user g),
                 severity = findLabel g LABELS_severity True,
                 type = findLabel g LABELS_type True,
                 responseTag = findLabel g LABELS_response True,
                 duplicated = Some (findLabel g LABELS_duplicated False \<noteq> None
                                    \<and> findLabel g LABELS_duplicated False \<noteq> Some []),
                 status = findLabel g LABELS_status True,
                 pending = findLabel g LABELS_pending True,
                 unsure = None,
                 teamAssigned = None,
                 assignees = Some (map login (gh_assignees g)),
                 labels = Some (map name (gh_labels g)),
                 githubLabels = Some (gh_labels g),
                 duplicateOf = None,
                 teamResponse = None,
                 testerResponses = None,
                 testerDisagree = None,
                 issueComment = None,
                 issueDisputes = None,
                 teamChosenSeverity = None,
                 teamChosenType = None,
                 teamAccepted = None,
                 teamResponseError = None,
                 testerResponseError = None \<rparr>))"

definition createPhaseBugReportingIssue ::
  "'x Externals_scheme \<Rightarrow> GithubIssue option \<Rightarrow> error + Issue" where
  "createPhaseBugReportingIssue ext record = new_Issue ext record"

text \<open>
  The callback of \<open>disputesToResolve.map\<close> in \<open>createPhaseModerationIssue\<close> and in
  \<open>updateDispute\<close>: the dispute at index \<open>i\<close> takes the description of the original at
  index \<open>i\<close>.  Reading \<open>.description\<close> of a missing original, or indexing a missing
  list, throws; a list with no dispute to resolve never runs the callback.
\<close>

fun zipDescriptions ::
  "IssueDispute list \<Rightarrow> nat \<Rightarrow> IssueDispute list option \<Rightarrow> error + IssueDispute list" where
  "zipDescriptions [] i originals = Inr []"
| "zipDescriptions (d # ds) i originals =
     (case originals of
        None \<Rightarrow> Inl TypeError
      | Some os \<Rightarrow>
          (if i < length os
           then (case zipDescriptions ds (Suc i) originals of
                   Inl e \<Rightarrow> Inl e
                 | Inr rest \<Rightarrow>
                     Inr (d\<lparr>dispute_description := dispute_description (os ! i)\<rparr> # rest))
           else Inl TypeError))"

definition createPhaseModerationIssue ::
  "'x Externals_scheme \<Rightarrow> GithubIssue \<Rightarrow> Team option \<Rightarrow> error + Issue" where
  "createPhaseModerationIssue ext record teamData =
     (case new_Issue ext (Some record) of
        Inl e \<Rightarrow> Inl e
      | Inr issue \<Rightarrow>
          (let issueTemplate = newTutorModerationIssueTemplate ext record;
               todoTemplate = newTutorModerationTodoTemplate ext (gh_comments record)
           in case template_description issueTemplate of
                None \<Rightarrow> Inl TypeError
              | Some d \<Rightarrow>
                  (case dispute issueTemplate of
                     None \<Rightarrow> Inl TypeError
                   | Some sect \<Rightarrow>
                       (let issue1 = issue
                              \<lparr> githubComments := Some (gh_comments record),
                                description := content d,
                                teamAssigned := teamData,
                                teamResponse :=
                                  (case template_teamResponse issueTemplate of
                                     None \<Rightarrow> None
                                   | Some r \<Rightarrow> Some (updateTeamResponse (Defined (content r)))),
                                issueDisputes := Some (disputes sect) \<rparr>
                        in case (moderation todoTemplate, todo_comment todoTemplate) of
                             (Some m, Some c) \<Rightarrow>
                               (case zipDescriptions (disputesToResolve m) 0 (Some (disputes sect)) of
                                  Inl e \<Rightarrow> Inl e
                                | Inr zipped \<Rightarrow>
                                    Inr (issue1\<lparr> issueDisputes := Some zipped,
                                                issueComment := Some c \<rparr>))
                           | _ \<Rightarrow> Inr issue1))))"

text \<open>
  \<open>updateDispute\<close> changes \<open>this\<close> in place: the result is the error thrown, if any,
  and \<open>this\<close> afterwards.  \<open>issueComment\<close> is assigned before anything can throw.
\<close>

definition updateDispute ::
  "'x Externals_scheme \<Rightarrow> GithubComment \<Rightarrow> Issue \<Rightarrow> error option \<times> Issue" where
  "updateDispute ext githubComment this =
     (let todoTemplate = newTutorModerationTodoTemplate ext [githubComment];
          this1 = this\<lparr>issueComment := todo_comment todoTemplate\<rparr>
      in case moderation todoTemplate of
           None \<Rightarrow> (Some TypeError, this1)
         | Some m \<Rightarrow>
             (case zipDescriptions (disputesToResolve m) 0 (issueDisputes this1) of
                Inl e \<Rightarrow> (Some e, this1)
              | Inr resolved \<Rightarrow> (None, this1\<lparr>issueDisputes := Some resolved\<rparr>)))"

text \<open>
  The enumeration \<open>Phase\<close> is declared outside the two source files, which name its
  member \<open>issuesViewer\<close> only; \<open>otherPhase\<close> stands for any other value that the
  configuration may hold.  A phase that is not set is \<open>None\<close> of \<open>Phase option\<close>.
\<close>

datatype Phase = issuesViewer | otherPhase string

text \<open>
  \<open>clone\<close>: both branches of the \<open>switch\<close> rebuild the issue from \<open>this.githubIssue\<close>.
\<close>

definition clone :: "'x Externals_scheme \<Rightarrow> Phase option \<Rightarrow> Issue \<Rightarrow> error + Issue" where
  "clone ext phase this =
     (case phase of
        Some issuesViewer \<Rightarrow> createPhaseBugReportingIssue ext (githubIssue this)
      | _ \<Rightarrow> createPhaseBugReportingIssue ext (githubIssue this))"

section \<open>issue.service.ts: the local store\<close>

text \<open>
  \<open>Issues\<close> is a JavaScript object whose keys are issue numbers.  Such an object holds
  each key once and enumerates integer keys in ascending order, so it is a list of
  pairs kept in ascending key order: \<open>Object.keys\<close> is \<open>map fst\<close>, \<open>Object.values\<close> is
  \<open>map snd\<close>, \<open>obj[k]\<close> is \<open>map_of obj k\<close>.
\<close>

type_synonym Issues = "(nat \<times> Issue) list"

text \<open>\<open>{...obj, [k]: v}\<close>\<close>

fun spreadWith :: "nat \<Rightarrow> 'v \<Rightarrow> (nat \<times> 'v) list \<Rightarrow> (nat \<times> 'v) list" where
  "spreadWith k v [] = [(k, v)]"
| "spreadWith k v ((k', v') # rest) =
     (if k = k' then (k, v) # rest
      else if k < k' then (k, v) # (k', v') # rest
      else (k', v') # spreadWith k v rest)"

text \<open>\<open>const {[k]: removed, ...others} = obj\<close>: the value of \<open>others\<close>.\<close>

definition restWithout :: "nat \<Rightarrow> (nat \<times> 'v) list \<Rightarrow> (nat \<times> 'v) list" where
  "restWithout k obj = filter (\<lambda>(k', v). k' \<noteq> k) obj"

text \<open>
  The state of the service that the modelled methods read or write: \<open>issues\<close>
  (\<open>undefined\<close> until the first write) and the current value of the subject
  \<open>issues$\<close>.  \<open>fetchLog\<close> records the ids passed to
  \<open>githubService.fetchIssueGraphql\<close>, oldest first: it is the trace of the remote
  single-id fetches the service has started.
\<close>

record IssueService =
  issues :: "Issues option"
  issues_subject :: "Issue list"
  fetchLog :: "nat list"

text \<open>
  The injected services, as they answer during one call: the configured phase
  (\<open>None\<close> when unset), the role of the current user, and the remote's answers to
  \<open>fetchIssueGraphql(id)\<close> and to the unfiltered \<open>fetchIssuesGraphql\<close>.
\<close>

record Services = Externals +
  currentPhase :: "Phase option"
  currentUserRole :: string
  fetchIssueGraphql :: "nat \<Rightarrow> error + GithubIssue"
  fetchIssuesGraphql :: "error + GithubIssue list"

definition createIssueModel :: "'x Services_scheme \<Rightarrow> GithubIssue \<Rightarrow> error + Issue option" where
  "createIssueModel sv record =
     (case currentPhase sv of
        Some issuesViewer \<Rightarrow>
          (case createPhaseBugReportingIssue sv (Some record) of
             Inl e \<Rightarrow> Inl e
           | Inr issue \<Rightarrow> Inr (Some issue))
      | _ \<Rightarrow> Inr None)"

text \<open>
  \<open>updateLocalStore\<close> and \<open>deleteFromLocalStore\<close> read \<open>.id\<close> of their argument, which
  is \<open>undefined\<close> when \<open>createIssueModel\<close> returned nothing or the store had no entry:
  the read throws before anything is written.  Spreading \<open>undefined\<close> adds no
  property; destructuring \<open>undefined\<close> throws.
\<close>

definition updateLocalStore :: "Issue option \<Rightarrow> IssueService \<Rightarrow> error + IssueService" where
  "updateLocalStore issueToUpdate s =
     (case issueToUpdate of
        None \<Rightarrow> Inl TypeError
      | Some issue \<Rightarrow>
          (let store = spreadWith (id_issue issue) issue
                         (case issues s of None \<Rightarrow> [] | Some old \<Rightarrow> old)
           in Inr (s\<lparr>issues := Some store, issues_subject := map snd store\<rparr>)))"

definition deleteFromLocalStore :: "Issue option \<Rightarrow> IssueService \<Rightarrow> error + IssueService" where
  "deleteFromLocalStore issueToDelete s =
     (case (issues s, issueToDelete) of
        (Some old, Some issue) \<Rightarrow>
          (let store = restWithout (id_issue issue) old
           in Inr (s\<lparr>issues := Some store, issues_subject := map snd store\<rparr>))
      | _ \<Rightarrow> Inl TypeError)"

definition createAndSaveIssueModel ::
  "'x Services_scheme \<Rightarrow> GithubIssue \<Rightarrow> IssueService \<Rightarrow> error + IssueService" where
  "createAndSaveIssueModel sv record s =
     (case createIssueModel sv record of
        Inl e \<Rightarrow> Inl e
      | Inr issue \<Rightarrow> updateLocalStore issue s)"

text \<open>
  \<open>getIssue\<close> and \<open>getLatestIssue\<close> return an observable that emits once.  The model
  returns what it emits (\<open>Inr\<close>, with \<open>None\<close> for \<open>undefined\<close>) or the error it fails
  with (\<open>Inl\<close>), and the state after the emission.  In \<open>getLatestIssue\<close> the
  \<open>catchError\<close> handler covers an error of the fetch and an error thrown inside
  \<open>map\<close>; the handler itself reads \<open>this.issues[id]\<close> and throws when the store is
  still \<open>undefined\<close>.
\<close>

definition readStore :: "nat \<Rightarrow> IssueService \<Rightarrow> error + Issue option" where
  "readStore ident s =
     (case issues s of None \<Rightarrow> Inl TypeError | Some store \<Rightarrow> Inr (map_of store ident))"

definition getLatestIssue ::
  "'x Services_scheme \<Rightarrow> nat \<Rightarrow> IssueService \<Rightarrow> (error + Issue option) \<times> IssueService" where
  "getLatestIssue sv ident s =
     (let s0 = s\<lparr>fetchLog := fetchLog s @ [ident]\<rparr> in
      case fetchIssueGraphql sv ident of
        Inl err \<Rightarrow> (readStore ident s0, s0)
      | Inr response \<Rightarrow>
          (case createAndSaveIssueModel sv response s0 of
             Inl err \<Rightarrow> (readStore ident s0, s0)
           | Inr s1 \<Rightarrow> (readStore ident s1, s1)))"

definition getIssue ::
  "'x Services_scheme \<Rightarrow> nat \<Rightarrow> IssueService \<Rightarrow> (error + Issue option) \<times> IssueService" where
  "getIssue sv ident s =
     (case issues s of
        None \<Rightarrow> getLatestIssue sv ident s
      | Some store \<Rightarrow> (Inr (map_of store ident), s))"

text \<open>
  \<open>deleteIssuesFromLocalStore\<close> subscribes to \<open>getIssue(id)\<close> for each id in turn, with
  a \<open>next\<close> handler only.  An error of the observable, or one thrown by the handler,
  is reported outside the loop, which goes on with the next id.
\<close>

definition deleteIssueIfPresent :: "'x Services_scheme \<Rightarrow> nat \<Rightarrow> IssueService \<Rightarrow> IssueService" where
  "deleteIssueIfPresent sv ident s =
     (case getIssue sv ident s of
        (Inl err, s1) \<Rightarrow> s1
      | (Inr issue, s1) \<Rightarrow>
          (case deleteFromLocalStore issue s1 of Inl err \<Rightarrow> s1 | Inr s2 \<Rightarrow> s2))"

fun deleteIssuesFromLocalStore ::
  "'x Services_scheme \<Rightarrow> nat list \<Rightarrow> IssueService \<Rightarrow> IssueService" where
  "deleteIssuesFromLocalStore sv [] s = s"
| "deleteIssuesFromLocalStore sv (ident # ids) s =
     deleteIssuesFromLocalStore sv ids (deleteIssueIfPresent sv ident s)"

definition getOutdatedIssueIds :: "nat list \<Rightarrow> IssueService \<Rightarrow> nat list" where
  "getOutdatedIssueIds fetchedIssueIds s =
     (case issues s of
        None \<Rightarrow> []
      | Some store \<Rightarrow>
          (if length fetchedIssueIds = 0 then []
           else filter (\<lambda>issueId. issueId \<notin> set fetchedIssueIds) (map fst store)))"

text \<open>
  The callback that \<open>initializeData\<close> maps over the fetched batches.  Its two nested
  loops visit the records of all batches in order; \<open>saveFetched\<close> is that loop, with
  the ids pushed so far and the state.  A throw leaves the loop with the writes made
  so far in place (\<open>Some\<close> error in the first component).
\<close>

fun saveFetched ::
  "'x Services_scheme \<Rightarrow> GithubIssue list \<Rightarrow> nat list \<Rightarrow> IssueService
     \<Rightarrow> error option \<times> nat list \<times> IssueService" where
  "saveFetched sv [] fetchedIssueIds s = (None, fetchedIssueIds, s)"
| "saveFetched sv (record # records) fetchedIssueIds s =
     (case createIssueModel sv record of
        Inl e \<Rightarrow> (Some e, fetchedIssueIds, s)
      | Inr None \<Rightarrow> (Some TypeError, fetchedIssueIds, s)
      | Inr (Some model) \<Rightarrow>
          (case createAndSaveIssueModel sv record s of
             Inl e \<Rightarrow> (Some e, fetchedIssueIds @ [id_issue model], s)
           | Inr s1 \<Rightarrow> saveFetched sv records (fetchedIssueIds @ [id_issue model]) s1))"

definition mergeFetched ::
  "'x Services_scheme \<Rightarrow> GithubIssue list list \<Rightarrow> IssueService
     \<Rightarrow> (error + Issue list) \<times> IssueService" where
  "mergeFetched sv issuesByFilter s =
     (case saveFetched sv (concat issuesByFilter) [] s of
        (Some e, fetchedIssueIds, s1) \<Rightarrow> (Inl e, s1)
      | (None, fetchedIssueIds, s1) \<Rightarrow>
          (let outdatedIssueIds = getOutdatedIssueIds fetchedIssueIds s1;
               s2 = deleteIssuesFromLocalStore sv outdatedIssueIds s1
           in case issues s2 of
                None \<Rightarrow> (Inl TypeError, s2)
              | Some store \<Rightarrow> (Inr (map snd store), s2)))"

text \<open>
  \<open>IssuesFilter\<close> has the single phase \<open>issuesViewer\<close>, with \<open>NO_FILTER\<close> for the roles
  Student, Tutor and Admin.  Indexing it with any other phase gives \<open>undefined\<close>,
  whose \<open>[role]\<close> throws; an unknown role gives \<open>undefined\<close>, the \<open>default\<close> case.
\<close>

definition IssuesFilter :: "Phase option \<Rightarrow> string \<Rightarrow> error + string option" where
  "IssuesFilter phase role =
     (case phase of
        Some issuesViewer \<Rightarrow>
          Inr (if role \<in> {''Student'', ''Tutor'', ''Admin''} then Some ''NO_FILTER'' else None)
      | _ \<Rightarrow> Inl TypeError)"

text \<open>
  \<open>initializeData\<close>: the value (or error) of the observable it returns, and the state
  after it.  The table yields no filter other than \<open>NO_FILTER\<close>, so of the \<open>switch\<close>
  only that case and the \<open>default\<close> are reachable; \<open>forkJoin\<close> of the single call
  emits the one-element list of its batch, or fails with its error.
\<close>

definition initializeData ::
  "'x Services_scheme \<Rightarrow> IssueService \<Rightarrow> (error + Issue list) \<times> IssueService" where
  "initializeData sv s =
     (case IssuesFilter (currentPhase sv) (currentUserRole sv) of
        Inl e \<Rightarrow> (Inl e, s)
      | Inr selected \<Rightarrow>
          (if selected = Some ''NO_FILTER''
           then (case fetchIssuesGraphql sv of
                   Inl err \<Rightarrow> (Inl err, s)
                 | Inr batch \<Rightarrow> mergeFetched sv [batch] s)
           else (Inr [], s)))"

section \<open>issue.service.ts: labels of an issue\<close>

definition createLabel :: "string \<Rightarrow> string \<Rightarrow> string" where
  "createLabel prepend val = prepend @ ''.'' @ val"

text \<open>
  A string attribute passes \<open>if (issue.x)\<close> when it is neither \<open>undefined\<close> nor
  empty.  An element of \<open>studentTeam\<close> beyond the pieces of the split is
  \<open>undefined\<close>, which a template literal prints as the word.
\<close>

definition labelIfSet :: "string \<Rightarrow> string option \<Rightarrow> string list" where
  "labelIfSet prepend attr =
     (case attr of
        None \<Rightarrow> []
      | Some v \<Rightarrow> (if v = [] then [] else [createLabel prepend v]))"

definition templateElement :: "string list \<Rightarrow> nat \<Rightarrow> string" where
  "templateElement xs i = (if i < length xs then xs ! i else ''undefined'')"

definition createLabelsForIssue :: "'x Services_scheme \<Rightarrow> Issue \<Rightarrow> error + string list" where
  "createLabelsForIssue sv issue =
     (case (if currentPhase sv \<noteq> Some issuesViewer
            then (case teamAssigned issue of
                    None \<Rightarrow> Inl TypeError
                  | Some team \<Rightarrow>
                      (let studentTeam = splitChars (\<lambda>c. c = CHR ''-'') (team_id team)
                       in Inr [createLabel ''tutorial''
                                 (templateElement studentTeam 0 @ ''-'' @ templateElement studentTeam 1),
                               createLabel ''team'' (templateElement studentTeam 2)]))
            else Inr []) of
        Inl e \<Rightarrow> Inl e
      | Inr teamLabels \<Rightarrow>
          Inr (teamLabels
               @ labelIfSet ''severity'' (severity issue)
               @ labelIfSet ''type'' (type issue)
               @ labelIfSet ''response'' (responseTag issue)
               @ (if duplicated issue = Some True then [''duplicate''] else [])
               @ labelIfSet ''status'' (status issue)
               @ (case pending issue of
                    None \<Rightarrow> []
                  | Some p \<Rightarrow>
                      (if p = [] then []
                       else if greaterThanZero (toNumber p) then [createLabel ''pending'' p] else []))
               @ (if unsure issue = Some True then [''unsure''] else [])))"

section \<open>Notions used to state the properties\<close>

text \<open>
  The store that the service builds is keyed by the id of each issue
  (\<open>updateLocalStore\<close> writes \<open>[issueToUpdate.id]: issueToUpdate\<close>) and, being a
  JavaScript object with integer keys, enumerates them in strictly ascending order.
  \<open>storeInvariant\<close> says so of a state; it holds before the first write and every
  modelled method keeps it.
\<close>

definition keyedById :: "Issues \<Rightarrow> bool" where
  "keyedById store = list_all (\<lambda>(k, issue). id_issue issue = k) store"

definition ascendingKeys :: "(nat \<times> 'v) list \<Rightarrow> bool" where
  "ascendingKeys obj = sorted_wrt (<) (map fst obj)"

definition storeInvariant :: "IssueService \<Rightarrow> bool" where
  "storeInvariant s =
     (case issues s of None \<Rightarrow> True | Some store \<Rightarrow> ascendingKeys store \<and> keyedById store)"

text \<open>
  The issue that the bug-report construction builds from a record, the list that
  \<open>issues\<close> holds (empty while \<open>undefined\<close>), the store after saving a batch record by
  record, the batch as a map from id to the issue built from the last record with that
  id, and a state with a new store published on \<open>issues$\<close>.
\<close>

definition builtIssue :: "'x Externals_scheme \<Rightarrow> GithubIssue \<Rightarrow> Issue" where
  "builtIssue ext record = projr (createPhaseBugReportingIssue ext (Some record))"

definition storeOrEmpty :: "IssueService \<Rightarrow> Issues" where
  "storeOrEmpty s = (case issues s of None \<Rightarrow> [] | Some store \<Rightarrow> store)"

fun putAll :: "'x Externals_scheme \<Rightarrow> GithubIssue list \<Rightarrow> Issues \<Rightarrow> Issues" where
  "putAll ext [] store = store"
| "putAll ext (record # records) store =
     putAll ext records (spreadWith (gh_number record) (builtIssue ext record) store)"

definition batchMap :: "'x Externals_scheme \<Rightarrow> GithubIssue list \<Rightarrow> nat \<rightharpoonup> Issue" where
  "batchMap ext batch = map_of (rev (map (\<lambda>record. (gh_number record, builtIssue ext record)) batch))"

definition withStore :: "Issues \<Rightarrow> IssueService \<Rightarrow> IssueService" where
  "withStore store s = s\<lparr>issues := Some store, issues_subject := map snd store\<rparr>"

text \<open>
  The labels of the attributes of an issue, which \<open>createLabelsForIssue\<close> appends in
  every phase, in its order.
\<close>

definition attributeLabels :: "Issue \<Rightarrow> string list" where
  "attributeLabels issue =
     labelIfSet ''severity'' (severity issue)
     @ labelIfSet ''type'' (type issue)
     @ labelIfSet ''response'' (responseTag issue)
     @ (if duplicated issue = Some True then [''duplicate''] else [])
     @ labelIfSet ''status'' (status issue)
     @ (case pending issue of
          None \<Rightarrow> []
        | Some p \<Rightarrow>
            (if p = [] then []
             else if greaterThanZero (toNumber p) then [createLabel ''pending'' p] else []))
     @ (if unsure issue = Some True then [''unsure''] else [])"

subsection \<open>Concrete inputs\<close>

text \<open>
  Stand-ins for the collaborators, used to evaluate the model: the hidden block of a
  body starts at its first \<open><\<close>, and the parsers find no section.
\<close>

definition exampleExternals :: Externals where
  "exampleExternals =
     \<lparr> newHiddenData = (\<lambda>body.
          \<lparr> originalStringWithoutHiddenData = Defined (takeWhile (\<lambda>c. c \<noteq> CHR ''<'') body),
            data = (if body = takeWhile (\<lambda>c. c \<noteq> CHR ''<'') body then []
                    else [(''session'', ''abc'')]) \<rparr>),
       momentFormat = (\<lambda>t. case t of None \<Rightarrow> ''Invalid date'' | Some text \<Rightarrow> text),
       newTutorModerationTodoTemplate = (\<lambda>comments. \<lparr> todo_comment = None, moderation = None \<rparr>),
       newTutorModerationIssueTemplate = (\<lambda>record.
          \<lparr> template_description = None, template_teamResponse = None, dispute = None \<rparr>) \<rparr>"

definition exampleRecord :: GithubIssue where
  "exampleRecord =
     \<lparr> gh_id = ''I_1'', gh_number = 1, gh_title = ''Crash on save'',
       gh_body = ''desc<!--session: abc-->'',
       gh_created_at = Some ''Nov 3, 2026 9:00 AM'', gh_updated_at = Some ''Nov 3, 2026 9:30 AM'',
       gh_closed_at = None, gh_milestone = None, gh_state = ''OPEN'', gh_issueOrPr = ''Issue'',
       gh_user = \<lparr> login = ''tester'' \<rparr>, gh_assignees = [],
       gh_labels = [\<lparr> name = ''severity.High'' \<rparr>, \<lparr> name = ''type.FunctionalityBug'' \<rparr>],
       gh_comments = [] \<rparr>"

definition recordNumbered :: "nat \<Rightarrow> GithubIssue" where
  "recordNumbered n = exampleRecord\<lparr> gh_number := n \<rparr>"

definition exampleServices :: Services where
  "exampleServices =
     \<lparr> newHiddenData = newHiddenData exampleExternals,
       momentFormat = momentFormat exampleExternals,
       newTutorModerationTodoTemplate = newTutorModerationTodoTemplate exampleExternals,
       newTutorModerationIssueTemplate = newTutorModerationIssueTemplate exampleExternals,
       currentPhase = Some issuesViewer,
       currentUserRole = ''Student'',
       fetchIssueGraphql = (\<lambda>ident. if ident = 0 then Inl (HttpError ''Not Found'')
                                      else Inr (recordNumbered ident)),
       fetchIssuesGraphql = Inr [recordNumbered 1, recordNumbered 2] \<rparr>"

definition initialService :: IssueService where
  "initialService = \<lparr> issues = None, issues_subject = [], fetchLog = [] \<rparr>"

definition serviceHolding :: "nat list \<Rightarrow> IssueService" where
  "serviceHolding ids =
     withStore (map (\<lambda>n. (n, builtIssue exampleServices (recordNumbered n))) ids) initialService"

definition exampleIssueWithTeam :: Issue where
  "exampleIssueWithTeam =
     (builtIssue exampleExternals exampleRecord)
       \<lparr> duplicated := Some True, pending := Some ''2'',
         teamAssigned := Some \<lparr> team_id = ''CS2103T-W12-3'' \<rparr> \<rparr>"

definition otherPhaseServices :: Services where
  "otherPhaseServices = exampleServices\<lparr> currentPhase := Some (otherPhase ''phaseTeamResponse'') \<rparr>"


definition exampleComment :: GithubComment where
  "exampleComment = \<lparr> comment_id = 11, comment_body = ''# Tutor Moderation'' \<rparr>"

definition disputeAbout :: "string \<Rightarrow> string \<Rightarrow> string \<Rightarrow> IssueDispute" where
  "disputeAbout t d r = \<lparr> dispute_title = t, dispute_description = d, tutorResponse = r \<rparr>"

definition resolvingExternals :: "IssueDispute list \<Rightarrow> Externals" where
  "resolvingExternals resolutions =
     exampleExternals
       \<lparr> newTutorModerationTodoTemplate := (\<lambda>comments.
            \<lparr> todo_comment =
                (case comments of
                   [] \<Rightarrow> None
                 | c # cs \<Rightarrow> Some \<lparr> issueComment_id = comment_id c,
                                     issueComment_description = comment_body c \<rparr>),
              moderation = Some \<lparr> disputesToResolve = resolutions \<rparr> \<rparr>) \<rparr>"

definition exampleModeration :: Externals where
  "exampleModeration =
     (resolvingExternals [disputeAbout ''Type'' [] ''Agree with the team''])
       \<lparr> newTutorModerationIssueTemplate := (\<lambda>record.
            \<lparr> template_description = Some \<lparr> content = ''Crash when saving'' \<rparr>,
              template_teamResponse = None,
              dispute = Some \<lparr> disputes = [disputeAbout ''Severity'' ''Team says Low'' [],
                                               disputeAbout ''Type'' ''Team says FeatureFlaw'' []] \<rparr> \<rparr>) \<rparr>"

definition exampleModerationRecord :: GithubIssue where
  "exampleModerationRecord = exampleRecord\<lparr> gh_comments := [exampleComment] \<rparr>"

definition exampleDisputedIssue :: Issue where
  "exampleDisputedIssue =
     (builtIssue exampleExternals exampleRecord)
       \<lparr> issueDisputes := Some [disputeAbout ''Severity'' ''Team says Low'' [],
                                disputeAbout ''Type'' ''Team says FeatureFlaw'' []] \<rparr>"

definition positionalZip :: "IssueDispute list \<Rightarrow> IssueDispute list \<Rightarrow> IssueDispute list" where
  "positionalZip resolutions originals =
     map2 (\<lambda>d orig. d\<lparr>dispute_description := dispute_description orig\<rparr>) resolutions originals"

section \<open>Properties of the store operations\<close>

lemma map_of_spreadWith: "map_of (spreadWith k v obj) = (map_of obj)(k \<mapsto> v)"
  by (induction obj) (auto simp: fun_eq_iff)

lemma keys_spreadWith: "set (map fst (spreadWith k v obj)) = insert k (set (map fst obj))"
proof -
  have "set (map fst (spreadWith k v obj)) = dom (map_of (spreadWith k v obj))"
    by (simp only: dom_map_of_conv_image_fst set_map)
  also have "\<dots> = insert k (dom (map_of obj))"
    by (simp only: map_of_spreadWith dom_fun_upd option.simps if_False)
  finally show ?thesis by (simp only: dom_map_of_conv_image_fst set_map)
qed

lemma ascendingKeys_Cons:
  "ascendingKeys ((k, v) # obj) \<longleftrightarrow> (\<forall>x \<in> set (map fst obj). k < x) \<and> ascendingKeys obj"
  by (simp add: ascendingKeys_def)

lemma ascendingKeys_spreadWith: "ascendingKeys obj \<Longrightarrow> ascendingKeys (spreadWith k v obj)"
proof (induction obj)
  case Nil
  show ?case by (simp add: ascendingKeys_def)
next
  case (Cons p obj)
  obtain k' v' where p: "p = (k', v')" by (cases p)
  from Cons.prems have above: "\<forall>x \<in> set (map fst obj). k' < x" and rest: "ascendingKeys obj"
    unfolding p ascendingKeys_Cons by blast+
  consider "k = k'" | "k < k'" | "k' < k" by linarith
  then show ?case
  proof cases
    case 1
    then show ?thesis using above rest by (simp add: p ascendingKeys_Cons)
  next
    case 2
    have "\<forall>x \<in> set (map fst ((k', v') # obj)). k < x"
      using 2 above by auto
    then have "ascendingKeys ((k, v) # (k', v') # obj)"
      using Cons.prems unfolding p by (subst ascendingKeys_Cons) blast
    then show ?thesis using 2 by (simp add: p)
  next
    case 3
    have "\<forall>x \<in> set (map fst (spreadWith k v obj)). k' < x"
      unfolding keys_spreadWith using 3 above by blast
    then have "ascendingKeys ((k', v') # spreadWith k v obj)"
      using Cons.IH[OF rest] by (subst ascendingKeys_Cons) blast
    then show ?thesis using 3 by (simp add: p)
  qed
qed

lemma ascendingKeys_filter: "ascendingKeys obj \<Longrightarrow> ascendingKeys (filter P obj)"
proof (induction obj)
  case Nil
  show ?case by (simp add: ascendingKeys_def)
next
  case (Cons p obj)
  obtain k v where p: "p = (k, v)" by (cases p)
  from Cons.prems have above: "\<forall>x \<in> set (map fst obj). k < x" and rest: "ascendingKeys obj"
    unfolding p ascendingKeys_Cons by blast+
  have "\<forall>x \<in> set (map fst (filter P obj)). k < x" using above by auto
  then have "ascendingKeys ((k, v) # filter P obj)"
    using Cons.IH[OF rest] by (subst ascendingKeys_Cons) blast
  then show ?case using Cons.IH[OF rest] by (simp add: p)
qed

lemma ascendingKeys_distinct: "ascendingKeys obj \<Longrightarrow> distinct (map fst obj)"
  unfolding ascendingKeys_def by (simp add: strict_sorted_iff)

lemma ascendingKeys_sorted: "ascendingKeys obj \<Longrightarrow> sorted (map fst obj)"
  unfolding ascendingKeys_def by (rule strict_sorted_imp_sorted)

lemma ascendingKeys_canonical:
  assumes a: "ascendingKeys a" and b: "ascendingKeys b" and eq: "map_of a = map_of b"
  shows "a = b"
proof -
  have da: "distinct (map fst a)" and db: "distinct (map fst b)"
    using a b by (simp_all add: ascendingKeys_distinct)
  have sets: "set a = set b"
    using eq map_of_inject_set[OF da db] by simp
  have "inj_on fst (set a \<union> set b)"
    using da sets by (simp add: distinct_map)
  then show ?thesis
    using map_sorted_distinct_set_unique[of fst a b] da db sets
      ascendingKeys_sorted[OF a] ascendingKeys_sorted[OF b] by blast
qed

lemma new_Issue_Some: "new_Issue ext (Some record) = Inr (builtIssue ext record)"
  by (simp add: builtIssue_def createPhaseBugReportingIssue_def new_Issue_def Let_def)

lemma id_builtIssue: "id_issue (builtIssue ext record) = gh_number record"
  by (simp add: builtIssue_def createPhaseBugReportingIssue_def new_Issue_def Let_def)

lemma createIssueModel_viewer:
  "currentPhase sv = Some issuesViewer \<Longrightarrow> createIssueModel sv record = Inr (Some (builtIssue sv record))"
  by (simp add: createIssueModel_def createPhaseBugReportingIssue_def new_Issue_Some)

lemma createIssueModel_other:
  "currentPhase sv \<noteq> Some issuesViewer \<Longrightarrow> createIssueModel sv record = Inr None"
  by (auto simp: createIssueModel_def split: option.splits Phase.splits)

lemma updateLocalStore_Some:
  "updateLocalStore (Some issue) s = Inr (withStore (spreadWith (id_issue issue) issue (storeOrEmpty s)) s)"
  by (simp add: updateLocalStore_def withStore_def storeOrEmpty_def Let_def)

lemma withStore_withStore: "withStore a (withStore b s) = withStore a s"
  by (simp add: withStore_def)

lemma storeOrEmpty_withStore: "storeOrEmpty (withStore a s) = a"
  by (simp add: withStore_def storeOrEmpty_def)

lemma saveFetched_viewer:
  assumes "currentPhase sv = Some issuesViewer"
  shows "saveFetched sv batch ids s =
           (None, ids @ map gh_number batch,
            if batch = [] then s else withStore (putAll sv batch (storeOrEmpty s)) s)"
proof (induction batch arbitrary: ids s)
  case Nil
  show ?case by simp
next
  case (Cons g gs)
  let ?s1 = "withStore (spreadWith (gh_number g) (builtIssue sv g) (storeOrEmpty s)) s"
  have save: "createAndSaveIssueModel sv g s = Inr ?s1"
    by (simp add: createAndSaveIssueModel_def createIssueModel_viewer[OF assms]
          updateLocalStore_Some id_builtIssue)
  have "saveFetched sv (g # gs) ids s = saveFetched sv gs (ids @ [gh_number g]) ?s1"
    by (simp add: createIssueModel_viewer[OF assms] save id_builtIssue)
  also have "\<dots> = (None, (ids @ [gh_number g]) @ map gh_number gs,
                     if gs = [] then ?s1 else withStore (putAll sv gs (storeOrEmpty ?s1)) ?s1)"
    by (rule Cons.IH)
  finally show ?case
    by (simp add: storeOrEmpty_withStore withStore_withStore)
qed

lemma saveFetched_other:
  assumes "currentPhase sv \<noteq> Some issuesViewer"
  shows "saveFetched sv batch ids s = (if batch = [] then None else Some TypeError, ids, s)"
  by (cases batch) (simp_all add: createIssueModel_other[OF assms])

lemma map_of_putAll: "map_of (putAll ext batch store) = map_of store ++ batchMap ext batch"
proof (induction batch arbitrary: store)
  case Nil
  show ?case by (simp add: batchMap_def)
next
  case (Cons g gs)
  have bm: "batchMap ext (g # gs) = [gh_number g \<mapsto> builtIssue ext g] ++ batchMap ext gs"
    by (simp add: batchMap_def map_of_append)
  have "map_of (putAll ext (g # gs) store)
          = map_of (spreadWith (gh_number g) (builtIssue ext g) store) ++ batchMap ext gs"
    by (simp only: putAll.simps Cons.IH)
  also have "\<dots> = (map_of store ++ [gh_number g \<mapsto> builtIssue ext g]) ++ batchMap ext gs"
    by (simp only: map_of_spreadWith map_add_upd map_add_empty)
  also have "\<dots> = map_of store ++ batchMap ext (g # gs)"
    by (simp only: bm map_add_assoc)
  finally show ?case .
qed

lemma dom_batchMap: "dom (batchMap ext batch) = set (map gh_number batch)"
  by (simp add: batchMap_def dom_map_of_conv_image_fst image_image)

lemma keys_putAll:
  "set (map fst (putAll ext batch store)) = set (map fst store) \<union> set (map gh_number batch)"
proof -
  have "set (map fst (putAll ext batch store)) = dom (map_of (putAll ext batch store))"
    by (simp only: dom_map_of_conv_image_fst set_map)
  also have "\<dots> = dom (map_of store) \<union> dom (batchMap ext batch)"
    by (simp only: map_of_putAll dom_map_add Un_commute)
  finally show ?thesis by (simp only: dom_map_of_conv_image_fst dom_batchMap set_map)
qed

lemma ascendingKeys_putAll: "ascendingKeys store \<Longrightarrow> ascendingKeys (putAll ext batch store)"
  by (induction batch arbitrary: store) (simp_all add: ascendingKeys_spreadWith)

lemma keyedById_spreadWith:
  "keyedById store \<Longrightarrow> id_issue issue = k \<Longrightarrow> keyedById (spreadWith k issue store)"
  by (induction store) (auto simp: keyedById_def)

lemma keyedById_putAll: "keyedById store \<Longrightarrow> keyedById (putAll ext batch store)"
  by (induction batch arbitrary: store) (simp_all add: keyedById_spreadWith id_builtIssue)

lemma keyedById_filter: "keyedById store \<Longrightarrow> keyedById (filter P store)"
  by (induction store) (auto simp: keyedById_def)

lemma getIssue_initialized:
  "issues s = Some store \<Longrightarrow> getIssue sv ident s = (Inr (map_of store ident), s)"
  by (simp add: getIssue_def)

lemma withStore_same:
  "issues s = Some store \<Longrightarrow> issues_subject s = map snd store \<Longrightarrow> withStore store s = s"
  by (simp add: withStore_def)

lemma issues_withStore: "issues (withStore store s) = Some store"
  and subject_withStore: "issues_subject (withStore store s) = map snd store"
  and fetchLog_withStore: "fetchLog (withStore store s) = fetchLog s"
  by (simp_all add: withStore_def)

lemma deleteIssueIfPresent_keyed:
  assumes "issues s = Some store" and "keyedById store"
  shows "deleteIssueIfPresent sv ident s =
           (if ident \<in> set (map fst store) then withStore (restWithout ident store) s else s)"
proof (cases "map_of store ident")
  case None
  then have "ident \<notin> set (map fst store)"
    by (simp add: map_of_eq_None_iff)
  then show ?thesis
    using assms(1) None
    by (simp add: deleteIssueIfPresent_def getIssue_initialized deleteFromLocalStore_def)
next
  case (Some issue)
  then have mem: "(ident, issue) \<in> set store" by (rule map_of_SomeD)
  then have "id_issue issue = ident"
    using assms(2) by (auto simp: keyedById_def list_all_iff)
  moreover have "ident \<in> set (map fst store)" using mem by force
  ultimately show ?thesis
    using assms(1) Some
    by (simp add: deleteIssueIfPresent_def getIssue_initialized deleteFromLocalStore_def
          withStore_def Let_def)
qed

lemma restWithout_absent: "ident \<notin> set (map fst store) \<Longrightarrow> restWithout ident store = store"
  by (induction store) (auto simp: restWithout_def)

lemma deleteIssuesFromLocalStore_keyed:
  assumes "issues s = Some store" and "keyedById store" and "issues_subject s = map snd store"
  shows "deleteIssuesFromLocalStore sv ids s =
           withStore (filter (\<lambda>(k, v). k \<notin> set ids) store) s"
  using assms
proof (induction ids arbitrary: s store)
  case Nil
  then show ?case by (simp add: withStore_same)
next
  case (Cons ident ids)
  let ?store1 = "restWithout ident store"
  have step: "deleteIssueIfPresent sv ident s = withStore ?store1 s"
  proof (cases "ident \<in> set (map fst store)")
    case True
    then show ?thesis
      by (simp only: deleteIssueIfPresent_keyed[OF Cons.prems(1,2)] if_True)
  next
    case False
    then show ?thesis
      by (simp add: deleteIssueIfPresent_keyed[OF Cons.prems(1,2)] restWithout_absent
            withStore_same[OF Cons.prems(1,3)])
  qed
  have "deleteIssuesFromLocalStore sv (ident # ids) s =
          deleteIssuesFromLocalStore sv ids (withStore ?store1 s)"
    by (simp add: step)
  also have "\<dots> = withStore (filter (\<lambda>(k, v). k \<notin> set ids) ?store1) (withStore ?store1 s)"
    by (rule Cons.IH)
      (simp_all add: issues_withStore subject_withStore keyedById_filter restWithout_def Cons.prems)
  also have "\<dots> = withStore (filter (\<lambda>(k, v). k \<notin> set (ident # ids)) store) s"
  proof -
    have "filter (\<lambda>(k, v). k \<notin> set ids) ?store1 = filter (\<lambda>(k, v). k \<notin> set (ident # ids)) store"
      unfolding restWithout_def filter_filter by (rule filter_cong) auto
    then show ?thesis by (simp add: withStore_withStore)
  qed
  finally show ?case .
qed

lemma getOutdatedIssueIds_withStore:
  "getOutdatedIssueIds ids (withStore store s) =
     (if ids = [] then [] else filter (\<lambda>k. k \<notin> set ids) (map fst store))"
  by (simp add: getOutdatedIssueIds_def issues_withStore)

lemma filter_not_outdated:
  "filter (\<lambda>(k, v). k \<notin> set (filter (\<lambda>k. k \<notin> set ids) (map fst store))) store
     = filter (\<lambda>(k, v). k \<in> set ids) store"
  by (rule filter_cong) force+

text \<open>What the callback does in the phase issuesViewer.\<close>

lemma mergeFetched_viewer:
  assumes phase: "currentPhase sv = Some issuesViewer"
    and keyed: "keyedById (storeOrEmpty s)"
    and batch: "concat issuesByFilter \<noteq> []"
  shows "mergeFetched sv issuesByFilter s =
           (let kept = filter (\<lambda>(k, v). k \<in> set (map gh_number (concat issuesByFilter)))
                         (putAll sv (concat issuesByFilter) (storeOrEmpty s))
            in (Inr (map snd kept), withStore kept s))"
proof -
  let ?batch = "concat issuesByFilter"
  let ?ids = "map gh_number ?batch"
  let ?store1 = "putAll sv ?batch (storeOrEmpty s)"
  let ?s1 = "withStore ?store1 s"
  let ?kept = "filter (\<lambda>(k, v). k \<in> set ?ids) ?store1"
  have loop: "saveFetched sv ?batch [] s = (None, ?ids, ?s1)"
    using batch by (simp add: saveFetched_viewer[OF phase] del: concat_eq_Nil_conv)
  have out: "getOutdatedIssueIds ?ids ?s1 = filter (\<lambda>k. k \<notin> set ?ids) (map fst ?store1)"
    using batch by (simp add: getOutdatedIssueIds_withStore del: concat_eq_Nil_conv)
  have "deleteIssuesFromLocalStore sv (getOutdatedIssueIds ?ids ?s1) ?s1
          = withStore (filter (\<lambda>(k, v). k \<notin> set (getOutdatedIssueIds ?ids ?s1)) ?store1) ?s1"
    by (rule deleteIssuesFromLocalStore_keyed)
      (simp_all add: issues_withStore subject_withStore keyedById_putAll keyed)
  then have del: "deleteIssuesFromLocalStore sv (getOutdatedIssueIds ?ids ?s1) ?s1 = withStore ?kept s"
    by (simp only: out filter_not_outdated withStore_withStore)
  show ?thesis
    by (simp add: mergeFetched_def loop del issues_withStore Let_def)
qed

lemma mergeFetched_empty:
  assumes "concat issuesByFilter = []"
  shows "mergeFetched sv issuesByFilter s =
           (case issues s of None \<Rightarrow> (Inl TypeError, s) | Some store \<Rightarrow> (Inr (map snd store), s))"
  using assms
  by (simp add: mergeFetched_def getOutdatedIssueIds_def Let_def del: concat_eq_Nil_conv
        split: option.splits)

lemma mergeFetched_other:
  assumes "currentPhase sv \<noteq> Some issuesViewer" and "concat issuesByFilter \<noteq> []"
  shows "mergeFetched sv issuesByFilter s = (Inl TypeError, s)"
  using assms by (simp add: mergeFetched_def saveFetched_other del: concat_eq_Nil_conv)

lemma map_of_filter_keys:
  "map_of (filter (\<lambda>(k, v). P k) obj) k = (if P k then map_of obj k else None)"
  by (induction obj) auto

lemma map_of_kept:
  "map_of (filter (\<lambda>(k, v). k \<in> set (map gh_number batch)) (putAll ext batch store))
     = batchMap ext batch"
proof
  fix k
  show "map_of (filter (\<lambda>(k, v). k \<in> set (map gh_number batch)) (putAll ext batch store)) k
          = batchMap ext batch k"
  proof (cases "k \<in> set (map gh_number batch)")
    case True
    then have "k \<in> dom (batchMap ext batch)" by (simp only: dom_batchMap)
    then obtain v where "batchMap ext batch k = Some v" by blast
    then show ?thesis
      using True by (simp add: map_of_filter_keys map_of_putAll map_add_Some_iff)
  next
    case False
    then have "k \<notin> dom (batchMap ext batch)" by (simp only: dom_batchMap not_False_eq_True)
    then have "batchMap ext batch k = None" by blast
    then show ?thesis
      using False by (simp add: map_of_filter_keys)
  qed
qed

lemma keys_kept:
  "set (map fst (filter (\<lambda>(k, v). k \<in> set (map gh_number batch)) (putAll ext batch store)))
     = set (map gh_number batch)"
proof -
  have "set (map fst (filter (\<lambda>(k, v). k \<in> set (map gh_number batch)) (putAll ext batch store)))
          = dom (map_of (filter (\<lambda>(k, v). k \<in> set (map gh_number batch)) (putAll ext batch store)))"
    by (simp only: dom_map_of_conv_image_fst set_map)
  then show ?thesis by (simp only: map_of_kept dom_batchMap)
qed

lemma map_add_same: "m ++ m = (m :: 'a \<rightharpoonup> 'b)"
  by (rule ext) (simp add: map_add_def split: option.splits)

lemma putAll_kept:
  assumes "ascendingKeys store"
  shows "putAll ext batch (filter (\<lambda>(k, v). k \<in> set (map gh_number batch)) (putAll ext batch store))
           = filter (\<lambda>(k, v). k \<in> set (map gh_number batch)) (putAll ext batch store)"
    (is "putAll ext batch ?kept = ?kept")
proof (rule ascendingKeys_canonical)
  have asc: "ascendingKeys ?kept"
    by (intro ascendingKeys_filter ascendingKeys_putAll assms)
  show "ascendingKeys ?kept" by (rule asc)
  show "ascendingKeys (putAll ext batch ?kept)" by (rule ascendingKeys_putAll[OF asc])
  show "map_of (putAll ext batch ?kept) = map_of ?kept"
    by (simp only: map_of_putAll map_of_kept map_add_same)
qed


lemma storeInvariant_storeOrEmpty:
  "storeInvariant s \<Longrightarrow> ascendingKeys (storeOrEmpty s) \<and> keyedById (storeOrEmpty s)"
  by (auto simp: storeInvariant_def storeOrEmpty_def ascendingKeys_def keyedById_def
      split: option.splits)

section \<open>The store invariant is kept\<close>

text \<open>
  \<open>storeInvariant\<close> holds of the service before its first write, and each modelled
  method that writes the store keeps it.
\<close>

lemma storeInvariant_initialService: "storeInvariant initialService"
  by (simp add: storeInvariant_def initialService_def)

lemma storeInvariant_withStore:
  "ascendingKeys store \<Longrightarrow> keyedById store \<Longrightarrow> storeInvariant (withStore store s)"
  by (simp add: storeInvariant_def issues_withStore)

lemma storeInvariant_updateLocalStore:
  assumes "storeInvariant s" and "updateLocalStore issueToUpdate s = Inr s'"
  shows "storeInvariant s'"
proof (cases issueToUpdate)
  case None
  with assms(2) show ?thesis by (simp add: updateLocalStore_def)
next
  case (Some issue)
  note so = storeInvariant_storeOrEmpty[OF assms(1)]
  from assms(2) have "s' = withStore (spreadWith (id_issue issue) issue (storeOrEmpty s)) s"
    unfolding Some updateLocalStore_Some by simp
  then show ?thesis
    using so by (simp add: storeInvariant_withStore ascendingKeys_spreadWith keyedById_spreadWith)
qed

lemma storeInvariant_deleteFromLocalStore:
  assumes "storeInvariant s" and "deleteFromLocalStore issueToDelete s = Inr s'"
  shows "storeInvariant s'"
proof (cases "issues s")
  case None
  with assms(2) show ?thesis by (simp add: deleteFromLocalStore_def)
next
  case (Some old)
  show ?thesis
  proof (cases issueToDelete)
    case None
    with assms(2) Some show ?thesis by (simp add: deleteFromLocalStore_def)
  next
    case (Some issue)
    with assms(2) \<open>issues s = Some old\<close>
    have s': "s' = withStore (restWithout (id_issue issue) old) s"
      by (simp add: deleteFromLocalStore_def withStore_def Let_def)
    from assms(1) \<open>issues s = Some old\<close> have "ascendingKeys old" and "keyedById old"
      by (simp_all add: storeInvariant_def)
    then show ?thesis
      unfolding s' restWithout_def
      by (intro storeInvariant_withStore ascendingKeys_filter keyedById_filter)
  qed
qed

lemma storeInvariant_getIssue:
  assumes "storeInvariant s"
  shows "storeInvariant (snd (getIssue sv ident s))"
proof (cases "issues s")
  case (Some store)
  then show ?thesis using assms by (simp add: getIssue_def)
next
  case None
  let ?s0 = "s\<lparr>fetchLog := fetchLog s @ [ident]\<rparr>"
  have inv0: "storeInvariant ?s0"
    using assms by (simp add: storeInvariant_def)
  have "snd (getIssue sv ident s) = ?s0
        \<or> (\<exists>issue s1. updateLocalStore issue ?s0 = Inr s1 \<and> snd (getIssue sv ident s) = s1)"
    using None
    by (auto simp: getIssue_def getLatestIssue_def createAndSaveIssueModel_def Let_def
        split: sum.splits)
  then show ?thesis
    using inv0 storeInvariant_updateLocalStore[OF inv0] by auto
qed

lemma storeInvariant_mergeFetched:
  assumes "storeInvariant s"
  shows "storeInvariant (snd (mergeFetched sv issuesByFilter s))"
proof (cases "concat issuesByFilter = []")
  case True
  from mergeFetched_empty[OF True, of sv s] have "snd (mergeFetched sv issuesByFilter s) = s"
    by (simp split: option.splits)
  with assms show ?thesis by simp
next
  case batch: False
  show ?thesis
  proof (cases "currentPhase sv = Some issuesViewer")
    case False
    with assms show ?thesis by (simp add: mergeFetched_other[OF False batch])
  next
    case True
    note so = storeInvariant_storeOrEmpty[OF assms]
    have "snd (mergeFetched sv issuesByFilter s)
            = withStore (filter (\<lambda>(k, v). k \<in> set (map gh_number (concat issuesByFilter)))
                           (putAll sv (concat issuesByFilter) (storeOrEmpty s))) s"
      using mergeFetched_viewer[OF True conjunct2[OF so] batch] by (simp only: Let_def snd_conv)
    then show ?thesis
      using so
      by (simp only: storeInvariant_withStore ascendingKeys_filter ascendingKeys_putAll
            keyedById_filter keyedById_putAll)
  qed
qed

text \<open>
  \<open>initializeData\<close> reaches the merge only in the phase \<open>issuesViewer\<close>: in any other
  phase the lookup in \<open>IssuesFilter\<close> throws before anything is fetched.
\<close>

lemma initializeData_other_phase:
  "currentPhase sv \<noteq> Some issuesViewer \<Longrightarrow> initializeData sv s = (Inl TypeError, s)"
  by (auto simp: initializeData_def IssuesFilter_def split: option.splits Phase.splits)

lemma initializeData_no_filter:
  assumes "currentPhase sv = Some issuesViewer"
    and "currentUserRole sv \<in> {''Student'', ''Tutor'', ''Admin''}"
    and "fetchIssuesGraphql sv = Inr batch"
  shows "initializeData sv s = mergeFetched sv [batch] s"
  using assms by (simp add: initializeData_def IssuesFilter_def)

lemma storeInvariant_initializeData:
  assumes "storeInvariant s"
  shows "storeInvariant (snd (initializeData sv s))"
proof -
  have "snd (initializeData sv s) = s
        \<or> (\<exists>batch. snd (initializeData sv s) = snd (mergeFetched sv [batch] s))"
    by (auto simp: initializeData_def split: sum.splits)
  then show ?thesis
    using assms storeInvariant_mergeFetched[OF assms] by auto
qed

section \<open>Merging a fetched batch\<close>

text \<open>
  Claim C1.  In the phase \<open>issuesViewer\<close> (the only phase in which \<open>initializeData\<close>
  gets as far as the merge), for every merge of fetched batches into a store that
  satisfies \<open>storeInvariant\<close>: the loop saves every fetched record under
  its id and collects the ids; the state after the merge is the state after the loop
  with the outdated ids deleted.  If the store was initialized and the batch is not
  empty, the outdated ids are exactly the ids of the prior store that the batch does
  not contain, and the resulting store holds exactly the fetched ids, each with the
  issue built from its last fetched record.  If the batch is empty nothing is evicted
  and the state is unchanged; if the store was never initialized nothing is evicted
  and the state is the one the loop left.
\<close>

theorem merge_evicts_ids_missing_from_batch:
  assumes phase: "currentPhase sv = Some issuesViewer"
    and inv: "storeInvariant s"
    and loop: "saveFetched sv (concat issuesByFilter) [] s = (e, fetchedIssueIds, s1)"
    and merge: "mergeFetched sv issuesByFilter s = (result, s2)"
  shows "e = None \<and> fetchedIssueIds = map gh_number (concat issuesByFilter)
       \<and> s2 = deleteIssuesFromLocalStore sv (getOutdatedIssueIds fetchedIssueIds s1) s1
       \<and> (\<forall>store. issues s = Some store \<and> fetchedIssueIds \<noteq> [] \<longrightarrow>
             set (getOutdatedIssueIds fetchedIssueIds s1) = set (map fst store) - set fetchedIssueIds
           \<and> (\<exists>store1 store2.
                 issues s1 = Some store1
               \<and> map_of store1 = map_of store ++ batchMap sv (concat issuesByFilter)
               \<and> issues s2 = Some store2
               \<and> set (map fst store2) = set fetchedIssueIds
               \<and> map_of store2 = batchMap sv (concat issuesByFilter)
               \<and> result = Inr (map snd store2)))
       \<and> (fetchedIssueIds = [] \<longrightarrow> getOutdatedIssueIds fetchedIssueIds s1 = [] \<and> s2 = s)
       \<and> (issues s = None \<longrightarrow> getOutdatedIssueIds fetchedIssueIds s1 = [] \<and> s2 = s1)"
proof -
  let ?batch = "concat issuesByFilter"
  let ?ids = "map gh_number ?batch"
  let ?store1 = "putAll sv ?batch (storeOrEmpty s)"
  let ?kept = "filter (\<lambda>(k, v). k \<in> set ?ids) ?store1"
  note so = storeInvariant_storeOrEmpty[OF inv]
  have e: "e = None" and ids: "fetchedIssueIds = ?ids"
    and s1: "s1 = (if ?batch = [] then s else withStore ?store1 s)"
    using loop unfolding saveFetched_viewer[OF phase] by simp_all
  have step: "s2 = deleteIssuesFromLocalStore sv (getOutdatedIssueIds fetchedIssueIds s1) s1"
    using merge loop by (simp add: mergeFetched_def e Let_def split: option.splits)
  have empty: "getOutdatedIssueIds fetchedIssueIds s1 = [] \<and> s2 = s" if "fetchedIssueIds = []"
  proof -
    from that have b: "?batch = []" unfolding ids by (simp del: concat_eq_Nil_conv)
    have "getOutdatedIssueIds fetchedIssueIds s1 = []"
      using that by (simp add: getOutdatedIssueIds_def split: option.splits)
    then show ?thesis using step s1 b by (simp del: concat_eq_Nil_conv)
  qed
  have first: "getOutdatedIssueIds fetchedIssueIds s1 = [] \<and> s2 = s1" if none: "issues s = None"
  proof (cases "?batch = []")
    case True
    then have "fetchedIssueIds = []" unfolding ids by (simp del: concat_eq_Nil_conv)
    then show ?thesis using empty s1 True by (simp del: concat_eq_Nil_conv)
  next
    case False
    have "storeOrEmpty s = []" using none by (simp add: storeOrEmpty_def)
    then have "set (map fst ?store1) = set ?ids" by (simp only: keys_putAll) simp
    then have "filter (\<lambda>k. k \<notin> set ?ids) (map fst ?store1) = []"
      by (simp only: filter_empty_conv) blast
    then have "getOutdatedIssueIds fetchedIssueIds s1 = []"
      using False unfolding ids s1
      by (simp add: getOutdatedIssueIds_withStore del: concat_eq_Nil_conv)
    then show ?thesis using step by simp
  qed
  have main: "set (getOutdatedIssueIds fetchedIssueIds s1) = set (map fst store) - set fetchedIssueIds
           \<and> (\<exists>store1 store2.
                 issues s1 = Some store1
               \<and> map_of store1 = map_of store ++ batchMap sv ?batch
               \<and> issues s2 = Some store2
               \<and> set (map fst store2) = set fetchedIssueIds
               \<and> map_of store2 = batchMap sv ?batch
               \<and> result = Inr (map snd store2))"
    if init: "issues s = Some store" and nonempty: "fetchedIssueIds \<noteq> []" for store
  proof -
    from nonempty have b: "?batch \<noteq> []" unfolding ids by (simp del: concat_eq_Nil_conv)
    have st: "storeOrEmpty s = store" using init by (simp add: storeOrEmpty_def)
    have s1': "s1 = withStore ?store1 s" using s1 b by (simp del: concat_eq_Nil_conv)
    have out: "getOutdatedIssueIds fetchedIssueIds s1 = filter (\<lambda>k. k \<notin> set ?ids) (map fst ?store1)"
      using b unfolding s1' ids by (simp add: getOutdatedIssueIds_withStore del: concat_eq_Nil_conv)
    have evicted: "set (getOutdatedIssueIds fetchedIssueIds s1) = set (map fst store) - set fetchedIssueIds"
      unfolding out unfolding ids set_filter keys_putAll st by blast
    have m: "mergeFetched sv issuesByFilter s = (Inr (map snd ?kept), withStore ?kept s)"
      using mergeFetched_viewer[OF phase conjunct2[OF so] b] by (simp only: Let_def)
    then have r: "result = Inr (map snd ?kept)" and s2: "s2 = withStore ?kept s"
      using merge by simp_all
    have "issues s1 = Some ?store1" by (simp only: s1' issues_withStore)
    moreover have "map_of ?store1 = map_of store ++ batchMap sv ?batch"
      by (simp only: map_of_putAll st)
    moreover have "issues s2 = Some ?kept" by (simp only: s2 issues_withStore)
    moreover have "set (map fst ?kept) = set fetchedIssueIds" by (simp only: keys_kept ids)
    moreover have "map_of ?kept = batchMap sv ?batch" by (rule map_of_kept)
    ultimately show ?thesis using evicted r by blast
  qed
  show ?thesis
    using e ids step main empty first by blast
qed

theorem merge_evicts_ids_missing_from_batch_witness:
  "currentPhase exampleServices = Some issuesViewer
   \<and> storeInvariant (serviceHolding [1, 2, 3])
   \<and> set (getOutdatedIssueIds
             (fst (snd (saveFetched exampleServices [recordNumbered 1, recordNumbered 2] []
                          (serviceHolding [1, 2, 3]))))
             (snd (snd (saveFetched exampleServices [recordNumbered 1, recordNumbered 2] []
                          (serviceHolding [1, 2, 3]))))) = {3}
   \<and> (\<exists>store2.
          issues (snd (mergeFetched exampleServices [[recordNumbered 1, recordNumbered 2]]
                         (serviceHolding [1, 2, 3]))) = Some store2
        \<and> set (map fst store2) = {1, 2})"
proof -
  let ?s = "serviceHolding [1, 2, 3]"
  let ?bs = "[[recordNumbered 1, recordNumbered 2]]"
  let ?loop = "saveFetched exampleServices (concat ?bs) [] ?s"
  let ?merge = "mergeFetched exampleServices ?bs ?s"
  have phase: "currentPhase exampleServices = Some issuesViewer"
    by (simp add: exampleServices_def)
  have inv: "storeInvariant ?s"
    by (simp add: storeInvariant_def serviceHolding_def withStore_def initialService_def
          ascendingKeys_def keyedById_def id_builtIssue recordNumbered_def)
  have loop: "?loop = (fst ?loop, fst (snd ?loop), snd (snd ?loop))" by simp
  have merge: "?merge = (fst ?merge, snd ?merge)" by simp
  have store: "issues ?s = Some (map (\<lambda>n. (n, builtIssue exampleServices (recordNumbered n))) [1, 2, 3])"
    by (simp add: serviceHolding_def withStore_def)
  have ids: "map gh_number (concat ?bs) = [1, 2]"
    by (simp add: recordNumbered_def)
  from merge_evicts_ids_missing_from_batch[OF phase inv loop merge] store ids
  show ?thesis
    using phase inv by auto
qed

text \<open>
  Claim C4.  Merging the same fetched batches twice in succession, from a store that
  satisfies \<open>storeInvariant\<close>: the second merge leaves the state that the first one
  produced (the same store, entry by entry, and the same published list), returns
  what the first returned, and finds no outdated id after its loop.
\<close>

theorem merging_a_batch_twice:
  assumes inv: "storeInvariant s"
    and first: "mergeFetched sv issuesByFilter s = (result1, s1)"
    and second: "mergeFetched sv issuesByFilter s1 = (result2, s2)"
    and loop: "saveFetched sv (concat issuesByFilter) [] s1 = (e, fetchedIssueIds, s1')"
  shows "s2 = s1 \<and> result2 = result1 \<and> getOutdatedIssueIds fetchedIssueIds s1' = []"
proof (cases "concat issuesByFilter = []")
  case True
  have m: "mergeFetched sv issuesByFilter t =
             (case issues t of None \<Rightarrow> (Inl TypeError, t) | Some store \<Rightarrow> (Inr (map snd store), t))"
    for t by (rule mergeFetched_empty[OF True])
  have same: "s1 = s"
    using first unfolding m by (auto split: option.splits)
  have "fetchedIssueIds = []"
    using loop unfolding True by simp
  then have "getOutdatedIssueIds fetchedIssueIds s1' = []"
    by (simp add: getOutdatedIssueIds_def split: option.splits)
  moreover have "s2 = s1 \<and> result2 = result1"
    using first second unfolding same m by (auto split: option.splits)
  ultimately show ?thesis by simp
next
  case batch: False
  show ?thesis
  proof (cases "currentPhase sv = Some issuesViewer")
    case False
    have m: "mergeFetched sv issuesByFilter t = (Inl TypeError, t)" for t
      by (rule mergeFetched_other[OF False batch])
    have "fetchedIssueIds = []"
      using loop batch unfolding saveFetched_other[OF False] by simp
    then have "getOutdatedIssueIds fetchedIssueIds s1' = []"
      by (simp add: getOutdatedIssueIds_def split: option.splits)
    then show ?thesis
      using first second unfolding m by simp
  next
    case phase: True
    let ?batch = "concat issuesByFilter"
    let ?ids = "map gh_number ?batch"
    let ?kept = "filter (\<lambda>(k, v). k \<in> set ?ids) (putAll sv ?batch (storeOrEmpty s))"
    note so = storeInvariant_storeOrEmpty[OF inv]
    have "mergeFetched sv issuesByFilter s = (Inr (map snd ?kept), withStore ?kept s)"
      using mergeFetched_viewer[OF phase conjunct2[OF so] batch] by (simp only: Let_def)
    then have r1: "result1 = Inr (map snd ?kept)" and s1: "s1 = withStore ?kept s"
      using first by simp_all
    have store1: "storeOrEmpty s1 = ?kept"
      by (simp only: s1 storeOrEmpty_withStore)
    have keyed1: "keyedById (storeOrEmpty s1)"
      unfolding store1 by (intro keyedById_filter keyedById_putAll conjunct2[OF so])
    have again: "putAll sv ?batch ?kept = ?kept"
      by (rule putAll_kept[OF conjunct1[OF so]])
    have keep: "filter (\<lambda>(k, v). k \<in> set ?ids) ?kept = ?kept"
      by simp
    have "mergeFetched sv issuesByFilter s1 = (Inr (map snd ?kept), withStore ?kept s1)"
      using mergeFetched_viewer[OF phase keyed1 batch]
      by (simp only: Let_def store1 again keep)
    then have r2: "result2 = Inr (map snd ?kept)" and s2: "s2 = withStore ?kept s1"
      using second by simp_all
    have state: "s2 = s1"
      by (simp only: s2 s1 withStore_withStore)
    have "saveFetched sv ?batch [] s1 = (None, ?ids, withStore ?kept s1)"
      by (simp only: saveFetched_viewer[OF phase] batch store1 again if_False append_Nil)
    then have ids: "fetchedIssueIds = ?ids" and after: "s1' = withStore ?kept s1"
      using loop by simp_all
    have "set (map fst ?kept) = set ?ids" by (rule keys_kept)
    then have "filter (\<lambda>k. k \<notin> set ?ids) (map fst ?kept) = []"
      by (simp only: filter_empty_conv) blast
    then have "getOutdatedIssueIds fetchedIssueIds s1' = []"
      using batch unfolding ids after
      by (simp add: getOutdatedIssueIds_withStore del: concat_eq_Nil_conv)
    then show ?thesis
      using state r1 r2 by simp
  qed
qed

theorem merging_a_batch_twice_witness:
  "storeInvariant (serviceHolding [1, 2, 3])
   \<and> snd (mergeFetched exampleServices [[recordNumbered 1, recordNumbered 2]]
            (snd (mergeFetched exampleServices [[recordNumbered 1, recordNumbered 2]]
                    (serviceHolding [1, 2, 3]))))
       = snd (mergeFetched exampleServices [[recordNumbered 1, recordNumbered 2]]
                (serviceHolding [1, 2, 3]))
   \<and> storeOrEmpty (snd (mergeFetched exampleServices [[recordNumbered 1, recordNumbered 2]]
                          (serviceHolding [1, 2, 3])))
       = [(1, builtIssue exampleServices (recordNumbered 1)),
          (2, builtIssue exampleServices (recordNumbered 2))]"
proof -
  let ?s = "serviceHolding [1, 2, 3]"
  let ?bs = "[[recordNumbered 1, recordNumbered 2]]"
  let ?m1 = "mergeFetched exampleServices ?bs ?s"
  let ?m2 = "mergeFetched exampleServices ?bs (snd ?m1)"
  let ?loop = "saveFetched exampleServices (concat ?bs) [] (snd ?m1)"
  have phase: "currentPhase exampleServices = Some issuesViewer"
    by (simp add: exampleServices_def)
  have inv: "storeInvariant ?s"
    by (simp add: storeInvariant_def serviceHolding_def withStore_def initialService_def
          ascendingKeys_def keyedById_def id_builtIssue recordNumbered_def)
  have first: "?m1 = (fst ?m1, snd ?m1)" by simp
  have second: "?m2 = (fst ?m2, snd ?m2)" by simp
  have loop: "?loop = (fst ?loop, fst (snd ?loop), snd (snd ?loop))" by simp
  have keyed: "keyedById (storeOrEmpty ?s)"
    by (rule conjunct2[OF storeInvariant_storeOrEmpty[OF inv]])
  have store: "storeOrEmpty (snd ?m1)
                 = [(1, builtIssue exampleServices (recordNumbered 1)),
                    (2, builtIssue exampleServices (recordNumbered 2))]"
    using mergeFetched_viewer[OF phase keyed, of ?bs]
    by (simp add: Let_def storeOrEmpty_withStore serviceHolding_def initialService_def
          recordNumbered_def)
  from merging_a_batch_twice[OF inv first second loop] inv store
  show ?thesis by simp
qed

section \<open>Reading one issue\<close>

text \<open>
  Claim C3, as amended.  For every id: while the store has never been initialized,
  \<open>getIssue\<close> starts exactly one remote fetch, for that id; when the phase is
  \<open>issuesViewer\<close> and the remote answers with a record, the issue built from the
  record is stored under the number of the record and published, and then the entry
  of the store for the id is returned, which is that issue when the record has the
  number asked for.  Once the store is initialized, \<open>getIssue\<close> returns the stored
  entry and changes nothing, the log of remote fetches included.
\<close>

theorem getIssue_fetches_only_when_uninitialized:
  "(issues s = None \<longrightarrow> fetchLog (snd (getIssue sv ident s)) = fetchLog s @ [ident])
   \<and> (issues s = None \<and> currentPhase sv = Some issuesViewer
        \<and> fetchIssueGraphql sv ident = Inr response \<longrightarrow>
        getIssue sv ident s =
          (Inr (if gh_number response = ident then Some (builtIssue sv response) else None),
           s\<lparr> issues := Some [(gh_number response, builtIssue sv response)],
              issues_subject := [builtIssue sv response],
              fetchLog := fetchLog s @ [ident] \<rparr>))
   \<and> (\<forall>store. issues s = Some store \<longrightarrow> getIssue sv ident s = (Inr (map_of store ident), s))"
proof (intro conjI impI allI)
  assume "issues s = None"
  then show "fetchLog (snd (getIssue sv ident s)) = fetchLog s @ [ident]"
    by (auto simp: getIssue_def getLatestIssue_def createAndSaveIssueModel_def
        updateLocalStore_def Let_def split: sum.splits option.splits)
next
  assume a: "issues s = None \<and> currentPhase sv = Some issuesViewer
        \<and> fetchIssueGraphql sv ident = Inr response"
  then have phase: "currentPhase sv = Some issuesViewer" by simp
  show "getIssue sv ident s =
          (Inr (if gh_number response = ident then Some (builtIssue sv response) else None),
           s\<lparr> issues := Some [(gh_number response, builtIssue sv response)],
              issues_subject := [builtIssue sv response],
              fetchLog := fetchLog s @ [ident] \<rparr>)"
    using a
    by (simp add: getIssue_def getLatestIssue_def createAndSaveIssueModel_def
        createIssueModel_viewer[OF phase] updateLocalStore_def id_builtIssue readStore_def Let_def)
next
  fix store
  assume "issues s = Some store"
  then show "getIssue sv ident s = (Inr (map_of store ident), s)"
    by (rule getIssue_initialized)
qed

theorem getIssue_fetches_only_when_uninitialized_witness:
  "issues initialService = None
   \<and> currentPhase exampleServices = Some issuesViewer
   \<and> fetchIssueGraphql exampleServices 2 = Inr (recordNumbered 2)
   \<and> gh_number (recordNumbered 2) = 2
   \<and> getIssue exampleServices 2 initialService =
        (Inr (Some (builtIssue exampleServices (recordNumbered 2))),
         \<lparr> issues = Some [(2, builtIssue exampleServices (recordNumbered 2))],
           issues_subject = [builtIssue exampleServices (recordNumbered 2)],
           fetchLog = [2] \<rparr>)
   \<and> issues (serviceHolding [1, 2, 3])
        = Some (map (\<lambda>n. (n, builtIssue exampleServices (recordNumbered n))) [1, 2, 3])
   \<and> getIssue exampleServices 2 (serviceHolding [1, 2, 3])
        = (Inr (Some (builtIssue exampleServices (recordNumbered 2))), serviceHolding [1, 2, 3])"
proof -
  have a: "issues initialService = None"
    by (simp add: initialService_def)
  have b: "currentPhase exampleServices = Some issuesViewer"
    and c: "fetchIssueGraphql exampleServices 2 = Inr (recordNumbered 2)"
    by (simp_all add: exampleServices_def)
  have d: "gh_number (recordNumbered 2) = 2"
    by (simp add: recordNumbered_def)
  have e: "issues (serviceHolding [1, 2, 3])
             = Some (map (\<lambda>n. (n, builtIssue exampleServices (recordNumbered n))) [1, 2, 3])"
    by (simp add: serviceHolding_def withStore_def)
  from getIssue_fetches_only_when_uninitialized
         [of initialService exampleServices 2 "recordNumbered 2"] a b c d
  have f: "getIssue exampleServices 2 initialService =
        (Inr (Some (builtIssue exampleServices (recordNumbered 2))),
         \<lparr> issues = Some [(2, builtIssue exampleServices (recordNumbered 2))],
           issues_subject = [builtIssue exampleServices (recordNumbered 2)],
           fetchLog = [2] \<rparr>)"
    by (simp add: initialService_def)
  from getIssue_fetches_only_when_uninitialized
         [of "serviceHolding [1, 2, 3]" exampleServices 2 "recordNumbered 2"] e
  have g: "getIssue exampleServices 2 (serviceHolding [1, 2, 3])
        = (Inr (Some (builtIssue exampleServices (recordNumbered 2))), serviceHolding [1, 2, 3])"
    by simp
  show ?thesis using a b c d e f g by blast
qed

text \<open>
  The claim as stated has the fetched result cached and returned for every id.  On a
  store that was never initialized, with the phase not set, and again with a remote
  that answers with an error, \<open>getIssue\<close> starts the fetch, stores nothing and fails.
\<close>

theorem getIssue_uninitialized_counterexample:
  "issues initialService = None
   \<and> fetchIssueGraphql exampleServices 2 = Inr (recordNumbered 2)
   \<and> getIssue (exampleServices\<lparr>currentPhase := None\<rparr>) 2 initialService
       = (Inl TypeError, \<lparr> issues = None, issues_subject = [], fetchLog = [2] \<rparr>)
   \<and> currentPhase exampleServices = Some issuesViewer
   \<and> fetchIssueGraphql exampleServices 0 = Inl (HttpError ''Not Found'')
   \<and> getIssue exampleServices 0 initialService
       = (Inl TypeError, \<lparr> issues = None, issues_subject = [], fetchLog = [0] \<rparr>)"
  by (simp add: initialService_def exampleServices_def getIssue_def getLatestIssue_def
        createAndSaveIssueModel_def createIssueModel_def updateLocalStore_def readStore_def
        Let_def)

text \<open>
  Claim C10.  When the store is initialized and has no entry for the id, \<open>getIssue\<close>
  emits \<open>undefined\<close>, with no error, and leaves the state as it was: no remote fetch
  is started.
\<close>

theorem getIssue_missing_id_in_initialized_store:
  assumes "issues s = Some store" and "map_of store ident = None"
  shows "getIssue sv ident s = (Inr None, s)
       \<and> fetchLog (snd (getIssue sv ident s)) = fetchLog s"
  using assms by (simp add: getIssue_def)

theorem getIssue_missing_id_in_initialized_store_witness:
  "issues (serviceHolding [1, 2, 3])
     = Some (map (\<lambda>n. (n, builtIssue exampleServices (recordNumbered n))) [1, 2, 3])
   \<and> map_of (map (\<lambda>n. (n, builtIssue exampleServices (recordNumbered n))) [1, 2, 3]) 7 = None
   \<and> getIssue exampleServices 7 (serviceHolding [1, 2, 3]) = (Inr None, serviceHolding [1, 2, 3])
   \<and> fetchLog (snd (getIssue exampleServices 7 (serviceHolding [1, 2, 3]))) = []"
proof -
  have a: "issues (serviceHolding [1, 2, 3])
             = Some (map (\<lambda>n. (n, builtIssue exampleServices (recordNumbered n))) [1, 2, 3])"
    by (simp add: serviceHolding_def withStore_def)
  have b: "map_of (map (\<lambda>n. (n, builtIssue exampleServices (recordNumbered n))) [1, 2, 3]) 7 = None"
    by simp
  have c: "fetchLog (serviceHolding [1, 2, 3]) = []"
    by (simp add: serviceHolding_def withStore_def initialService_def)
  from getIssue_missing_id_in_initialized_store[OF a b, of exampleServices] a b c
  show ?thesis by simp
qed

section \<open>Constructing an issue\<close>

text \<open>
  Claim C7, as amended.  For a record whose body decodes to the visible text
  \<open>desc\<close> and whose labels are \<open>severity.High\<close> and \<open>type.FunctionalityBug\<close>, the
  bug-report construction yields an issue whose description is \<open>desc\<close> followed by
  two line feeds (\<open>formatText\<close> appends them to any text that is not blank), whose
  severity is \<open>High\<close>, whose type is \<open>FunctionalityBug\<close> and which is not duplicated.
\<close>

theorem bug_report_issue_end_to_end:
  assumes "originalStringWithoutHiddenData (newHiddenData ext (gh_body record)) = Defined ''desc''"
    and "map name (gh_labels record) = [''severity.High'', ''type.FunctionalityBug'']"
  shows "\<exists>issue. createPhaseBugReportingIssue ext (Some record) = Inr issue
           \<and> description issue = ''desc'' @ [CHR 0x0A, CHR 0x0A]
           \<and> severity issue = Some ''High''
           \<and> type issue = Some ''FunctionalityBug''
           \<and> duplicated issue = Some False"
proof -
  from assms(2) obtain l1 l2 where ls: "gh_labels record = [l1, l2]"
    and n1: "name l1 = ''severity.High''" and n2: "name l2 = ''type.FunctionalityBug''"
    by auto
  have d: "updateDescription (Defined ''desc'') = ''desc'' @ [CHR 0x0A, CHR 0x0A]"
    by (simp add: updateDescription_def orDefaultString_def formatText_def trim_def
          isWhiteSpace_def newLinesRegex_def)
  have sev: "findLabel record LABELS_severity True = Some ''High''"
    and kind: "findLabel record LABELS_type True = Some ''FunctionalityBug''"
    and dup: "findLabel record LABELS_duplicated False = None"
    by (simp_all add: findLabel_def ls n1 n2 LABELS_severity_def LABELS_type_def
          LABELS_duplicated_def)
  show ?thesis
    by (simp add: createPhaseBugReportingIssue_def new_Issue_def Let_def assms(1) d sev kind dup)
qed

theorem bug_report_issue_end_to_end_witness:
  "originalStringWithoutHiddenData (newHiddenData exampleExternals (gh_body exampleRecord))
     = Defined ''desc''
   \<and> data (newHiddenData exampleExternals (gh_body exampleRecord)) = [(''session'', ''abc'')]
   \<and> map name (gh_labels exampleRecord) = [''severity.High'', ''type.FunctionalityBug'']
   \<and> description (builtIssue exampleExternals exampleRecord) = ''desc'' @ [CHR 0x0A, CHR 0x0A]
   \<and> severity (builtIssue exampleExternals exampleRecord) = Some ''High''
   \<and> type (builtIssue exampleExternals exampleRecord) = Some ''FunctionalityBug''
   \<and> duplicated (builtIssue exampleExternals exampleRecord) = Some False"
proof -
  have a: "originalStringWithoutHiddenData (newHiddenData exampleExternals (gh_body exampleRecord))
             = Defined ''desc''"
    and b: "data (newHiddenData exampleExternals (gh_body exampleRecord)) = [(''session'', ''abc'')]"
    and c: "map name (gh_labels exampleRecord) = [''severity.High'', ''type.FunctionalityBug'']"
    by (simp_all add: exampleExternals_def exampleRecord_def)
  from bug_report_issue_end_to_end[OF a c] a b c
  show ?thesis by (auto simp: builtIssue_def)
qed

text \<open>
  The claim as stated asks for the description \<open>desc\<close>; at the record above the
  description differs from it.
\<close>

theorem bug_report_description_counterexample:
  "originalStringWithoutHiddenData (newHiddenData exampleExternals (gh_body exampleRecord))
     = Defined ''desc''
   \<and> map name (gh_labels exampleRecord) = [''severity.High'', ''type.FunctionalityBug'']
   \<and> createPhaseBugReportingIssue exampleExternals (Some exampleRecord)
       = Inr (builtIssue exampleExternals exampleRecord)
   \<and> description (builtIssue exampleExternals exampleRecord) \<noteq> ''desc''
   \<and> length (description (builtIssue exampleExternals exampleRecord)) = 6"
  by (simp add: exampleExternals_def exampleRecord_def builtIssue_def
        createPhaseBugReportingIssue_def new_Issue_def Let_def updateDescription_def
        orDefaultString_def formatText_def trim_def isWhiteSpace_def newLinesRegex_def)

text \<open>
  Claim C6, as amended.  When the configured phase is unset or is not
  \<open>issuesViewer\<close>, \<open>createIssueModel\<close> yields no issue at all (\<open>undefined\<close>), without an
  error.  In the phase \<open>issuesViewer\<close> it yields the issue of the bug-report
  construction, which carries the base fields and the label-derived fields severity,
  type, response tag, duplicated, status and pending only: every other field
  (\<open>githubIssue\<close>, \<open>githubComments\<close>, \<open>unsure\<close>, \<open>teamAssigned\<close>, \<open>duplicateOf\<close>,
  \<open>teamResponse\<close>, \<open>testerResponses\<close>, \<open>testerDisagree\<close>, \<open>issueComment\<close>,
  \<open>issueDisputes\<close>, \<open>teamChosenSeverity\<close>, \<open>teamChosenType\<close>, \<open>teamAccepted\<close>,
  \<open>teamResponseError\<close>, \<open>testerResponseError\<close>) is \<open>undefined\<close>.
\<close>

theorem createIssueModel_by_phase:
  "(currentPhase sv \<noteq> Some issuesViewer \<longrightarrow> createIssueModel sv record = Inr None)
   \<and> (currentPhase sv = Some issuesViewer \<longrightarrow>
        createIssueModel sv record = Inr (Some (builtIssue sv record))
        \<and> createPhaseBugReportingIssue sv (Some record) = Inr (builtIssue sv record)
        \<and> builtIssue sv record =
            \<lparr> globalId = gh_id record,
              id_issue = gh_number record,
              created_at = momentFormat sv (gh_created_at record),
              githubIssue = None,
              githubComments = None,
              title = gh_title record,
              description =
                updateDescription
                  (originalStringWithoutHiddenData (newHiddenData sv (gh_body record))),
              hiddenDataInDescription = newHiddenData sv (gh_body record),
              updated_at = momentFormat sv (gh_updated_at record),
              closed_at = momentFormat sv (gh_closed_at record),
              milestone = (case gh_milestone record of
                             Some m \<Rightarrow> Milestone m
                           | None \<Rightarrow> DefaultMilestone),
              state = gh_state record,
              issueOrPr = gh_issueOrPr record,
              author = login (gh_user record),
              severity = findLabel record LABELS_severity True,
              type = findLabel record LABELS_type True,
              responseTag = findLabel record LABELS_response True,
              duplicated = Some (findLabel record LABELS_duplicated False \<noteq> None
                                 \<and> findLabel record LABELS_duplicated False \<noteq> Some []),
              status = findLabel record LABELS_status True,
              pending = findLabel record LABELS_pending True,
              unsure = None,
              teamAssigned = None,
              assignees = Some (map login (gh_assignees record)),
              labels = Some (map name (gh_labels record)),
              githubLabels = Some (gh_labels record),
              duplicateOf = None,
              teamResponse = None,
              testerResponses = None,
              testerDisagree = None,
              issueComment = None,
              issueDisputes = None,
              teamChosenSeverity = None,
              teamChosenType = None,
              teamAccepted = None,
              teamResponseError = None,
              testerResponseError = None \<rparr>)"
proof (intro conjI impI)
  assume "currentPhase sv \<noteq> Some issuesViewer"
  then show "createIssueModel sv record = Inr None"
    by (rule createIssueModel_other)
next
  assume "currentPhase sv = Some issuesViewer"
  then show "createIssueModel sv record = Inr (Some (builtIssue sv record))"
    by (rule createIssueModel_viewer)
next
  show "createPhaseBugReportingIssue sv (Some record) = Inr (builtIssue sv record)"
    by (simp add: createPhaseBugReportingIssue_def new_Issue_Some)
next
  show "builtIssue sv record =
            \<lparr> globalId = gh_id record,
              id_issue = gh_number record,
              created_at = momentFormat sv (gh_created_at record),
              githubIssue = None,
              githubComments = None,
              title = gh_title record,
              description =
                updateDescription
                  (originalStringWithoutHiddenData (newHiddenData sv (gh_body record))),
              hiddenDataInDescription = newHiddenData sv (gh_body record),
              updated_at = momentFormat sv (gh_updated_at record),
              closed_at = momentFormat sv (gh_closed_at record),
              milestone = (case gh_milestone record of
                             Some m \<Rightarrow> Milestone m
                           | None \<Rightarrow> DefaultMilestone),
              state = gh_state record,
              issueOrPr = gh_issueOrPr record,
              author = login (gh_user record),
              severity = findLabel record LABELS_severity True,
              type = findLabel record LABELS_type True,
              responseTag = findLabel record LABELS_response True,
              duplicated = Some (findLabel record LABELS_duplicated False \<noteq> None
                                 \<and> findLabel record LABELS_duplicated False \<noteq> Some []),
              status = findLabel record LABELS_status True,
              pending = findLabel record LABELS_pending True,
              unsure = None,
              teamAssigned = None,
              assignees = Some (map login (gh_assignees record)),
              labels = Some (map name (gh_labels record)),
              githubLabels = Some (gh_labels record),
              duplicateOf = None,
              teamResponse = None,
              testerResponses = None,
              testerDisagree = None,
              issueComment = None,
              issueDisputes = None,
              teamChosenSeverity = None,
              teamChosenType = None,
              teamAccepted = None,
              teamResponseError = None,
              testerResponseError = None \<rparr>"
    by (simp add: builtIssue_def createPhaseBugReportingIssue_def new_Issue_def Let_def)
qed

theorem createIssueModel_by_phase_witness:
  "currentPhase (exampleServices\<lparr>currentPhase := None\<rparr>) \<noteq> Some issuesViewer
   \<and> createIssueModel (exampleServices\<lparr>currentPhase := None\<rparr>) exampleRecord = Inr None
   \<and> currentPhase exampleServices = Some issuesViewer
   \<and> createIssueModel exampleServices exampleRecord
       = Inr (Some (builtIssue exampleServices exampleRecord))
   \<and> issueDisputes (builtIssue exampleServices exampleRecord) = None"
proof -
  have a: "currentPhase (exampleServices\<lparr>currentPhase := None\<rparr>) \<noteq> Some issuesViewer"
    by simp
  have b: "currentPhase exampleServices = Some issuesViewer"
    by (simp add: exampleServices_def)
  from createIssueModel_by_phase[of "exampleServices\<lparr>currentPhase := None\<rparr>" exampleRecord]
    createIssueModel_by_phase[of exampleServices exampleRecord] a b
  show ?thesis by simp
qed

text \<open>
  The claim as stated asks for a degraded issue when no phase matches; with the phase
  unset, and with a phase of another name, there is no issue.
\<close>

theorem createIssueModel_no_phase_counterexample:
  "createIssueModel (exampleServices\<lparr>currentPhase := None\<rparr>) exampleRecord = Inr None
   \<and> createIssueModel (exampleServices\<lparr>currentPhase := Some (otherPhase ''phaseBugReporting'')\<rparr>)
        exampleRecord = Inr None"
  by (simp add: createIssueModel_def)

text \<open>
  Claim C5 does not hold of the code.  The constructor never assigns
  \<open>this.githubIssue\<close>, so \<open>clone\<close> of any issue that the bug-report construction has
  built passes \<open>undefined\<close> to the constructor, which throws: no fresh issue is
  produced, whatever the phase.
\<close>

theorem clone_of_built_issue_throws:
  assumes "createPhaseBugReportingIssue ext (Some record) = Inr issue"
  shows "githubIssue issue = None \<and> clone ext phase issue = Inl TypeError"
proof -
  have "githubIssue issue = None"
    using assms by (auto simp: createPhaseBugReportingIssue_def new_Issue_def Let_def)
  then show ?thesis
    by (simp add: clone_def createPhaseBugReportingIssue_def new_Issue_def
        split: option.splits Phase.splits)
qed

theorem clone_of_built_issue_throws_witness:
  "createPhaseBugReportingIssue exampleExternals (Some exampleRecord)
     = Inr (builtIssue exampleExternals exampleRecord)
   \<and> clone exampleExternals (Some issuesViewer) (builtIssue exampleExternals exampleRecord)
       = Inl TypeError"
proof -
  have a: "createPhaseBugReportingIssue exampleExternals (Some exampleRecord)
             = Inr (builtIssue exampleExternals exampleRecord)"
    by (simp add: createPhaseBugReportingIssue_def new_Issue_Some)
  from clone_of_built_issue_throws[OF a, of "Some issuesViewer"] a
  show ?thesis by simp
qed

section \<open>Labels of an issue\<close>

lemma in_labelIfSet:
  "l \<in> set (labelIfSet prepend attr) \<longleftrightarrow> (\<exists>v. attr = Some v \<and> v \<noteq> [] \<and> l = prepend @ ''.'' @ v)"
  by (auto simp: labelIfSet_def createLabel_def split: option.splits)

lemma in_optional_label: "(l \<in> set (if c then [x] else [])) = (c \<and> l = x)"
  by (cases c) simp_all

lemma in_pending_label:
  "l \<in> set (case pendingAttr of
               None \<Rightarrow> []
             | Some p \<Rightarrow>
                 (if p = [] then []
                  else if greaterThanZero (toNumber p) then [createLabel ''pending'' p] else []))
     \<longleftrightarrow> (\<exists>v. pendingAttr = Some v \<and> v \<noteq> [] \<and> greaterThanZero (toNumber v)
              \<and> l = ''pending.'' @ v)"
proof (cases pendingAttr)
  case None
  then show ?thesis by simp
next
  case (Some p)
  then show ?thesis
    by (cases "p = []"; cases "greaterThanZero (toNumber p)") (simp_all add: createLabel_def)
qed

lemma in_attributeLabels:
  "l \<in> set (attributeLabels issue) \<longleftrightarrow>
       (\<exists>v. severity issue = Some v \<and> v \<noteq> [] \<and> l = ''severity.'' @ v)
     \<or> (\<exists>v. type issue = Some v \<and> v \<noteq> [] \<and> l = ''type.'' @ v)
     \<or> (\<exists>v. responseTag issue = Some v \<and> v \<noteq> [] \<and> l = ''response.'' @ v)
     \<or> (duplicated issue = Some True \<and> l = ''duplicate'')
     \<or> (\<exists>v. status issue = Some v \<and> v \<noteq> [] \<and> l = ''status.'' @ v)
     \<or> (\<exists>v. pending issue = Some v \<and> v \<noteq> [] \<and> greaterThanZero (toNumber v)
              \<and> l = ''pending.'' @ v)
     \<or> (unsure issue = Some True \<and> l = ''unsure'')"
  unfolding attributeLabels_def set_append Un_iff in_labelIfSet in_pending_label in_optional_label
  by simp

lemma attributeLabels_first_two:
  assumes "l \<in> set (attributeLabels issue)"
  shows "take 2 l \<in> {''se'', ''ty'', ''re'', ''du'', ''st'', ''pe'', ''un''}"
proof -
  from assms have
      "(\<exists>v. severity issue = Some v \<and> v \<noteq> [] \<and> l = ''severity.'' @ v)
     \<or> (\<exists>v. type issue = Some v \<and> v \<noteq> [] \<and> l = ''type.'' @ v)
     \<or> (\<exists>v. responseTag issue = Some v \<and> v \<noteq> [] \<and> l = ''response.'' @ v)
     \<or> (duplicated issue = Some True \<and> l = ''duplicate'')
     \<or> (\<exists>v. status issue = Some v \<and> v \<noteq> [] \<and> l = ''status.'' @ v)
     \<or> (\<exists>v. pending issue = Some v \<and> v \<noteq> [] \<and> greaterThanZero (toNumber v)
              \<and> l = ''pending.'' @ v)
     \<or> (unsure issue = Some True \<and> l = ''unsure'')"
    by (simp only: in_attributeLabels)
  then show ?thesis
    by (elim disjE exE conjE) simp_all
qed

lemma createLabelsForIssue_viewer:
  "currentPhase sv = Some issuesViewer \<Longrightarrow>
     createLabelsForIssue sv issue = Inr (attributeLabels issue)"
  by (simp add: createLabelsForIssue_def attributeLabels_def)

lemma createLabelsForIssue_team:
  "currentPhase sv \<noteq> Some issuesViewer \<Longrightarrow> teamAssigned issue = Some team \<Longrightarrow>
     createLabelsForIssue sv issue =
       Inr ((''tutorial.'' @ templateElement (splitChars (\<lambda>c. c = CHR ''-'') (team_id team)) 0
               @ ''-'' @ templateElement (splitChars (\<lambda>c. c = CHR ''-'') (team_id team)) 1)
            # (''team.'' @ templateElement (splitChars (\<lambda>c. c = CHR ''-'') (team_id team)) 2)
            # attributeLabels issue)"
  by (simp add: createLabelsForIssue_def attributeLabels_def createLabel_def Let_def)

lemma createLabelsForIssue_no_team:
  "currentPhase sv \<noteq> Some issuesViewer \<Longrightarrow> teamAssigned issue = None \<Longrightarrow>
     createLabelsForIssue sv issue = Inl TypeError"
  by (simp add: createLabelsForIssue_def)

lemma splitChars_no_separator: "\<forall>c \<in> set str. \<not> sep c \<Longrightarrow> splitChars sep str = [str]"
  by (induction str) auto

lemma splitChars_at_separator:
  "\<forall>c \<in> set piece. \<not> sep c \<Longrightarrow> sep d \<Longrightarrow>
     splitChars sep (piece @ d # rest) = piece # splitChars sep rest"
  by (induction piece) auto

lemma splitChars_three:
  assumes "CHR ''-'' \<notin> set a \<union> set b \<union> set c"
  shows "splitChars (\<lambda>c. c = CHR ''-'') (a @ ''-'' @ b @ ''-'' @ c) = [a, b, c]"
proof -
  have a: "\<forall>x \<in> set a. \<not> x = CHR ''-''" and b: "\<forall>x \<in> set b. \<not> x = CHR ''-''"
    and c: "\<forall>x \<in> set c. \<not> x = CHR ''-''"
    using assms by auto
  have "splitChars (\<lambda>c. c = CHR ''-'') (a @ CHR ''-'' # b @ CHR ''-'' # c)
          = a # splitChars (\<lambda>c. c = CHR ''-'') (b @ CHR ''-'' # c)"
    by (rule splitChars_at_separator) (use a in simp_all)
  also have "splitChars (\<lambda>c. c = CHR ''-'') (b @ CHR ''-'' # c) = b # splitChars (\<lambda>c. c = CHR ''-'') c"
    by (rule splitChars_at_separator) (use b in simp_all)
  also have "splitChars (\<lambda>c. c = CHR ''-'') c = [c]"
    by (rule splitChars_no_separator) (use c in simp)
  finally show ?thesis by simp
qed

text \<open>Unary plus on a count written in decimal digits.\<close>

lemma digit_not_whiteSpace: "isDecimalDigit c \<Longrightarrow> \<not> isWhiteSpace c"
  by (auto simp: isDecimalDigit_def isWhiteSpace_def)

lemma dropWhile_head: "xs \<noteq> [] \<Longrightarrow> \<not> P (hd xs) \<Longrightarrow> dropWhile P xs = xs"
  by (cases xs) simp_all

lemma trim_decimalDigits:
  assumes "v \<noteq> []" and "list_all isDecimalDigit v"
  shows "trim v = v"
proof -
  have all: "\<forall>c \<in> set v. \<not> isWhiteSpace c"
    using assms(2) by (auto simp: list_all_iff digit_not_whiteSpace)
  have front: "dropWhile isWhiteSpace v = v"
    using assms(1) all by (intro dropWhile_head) simp_all
  have "hd (rev v) \<in> set v"
    using assms(1) by (simp add: hd_rev)
  then have "dropWhile isWhiteSpace (rev v) = rev v"
    using assms(1) all by (intro dropWhile_head) simp_all
  then show ?thesis
    by (simp add: trim_def front)
qed

lemma nonDecimalIntegerLiteral_decimalDigits:
  assumes "list_all isDecimalDigit v"
  shows "nonDecimalIntegerLiteral v = None"
proof (cases v)
  case Nil
  then show ?thesis by (simp add: nonDecimalIntegerLiteral_def)
next
  case (Cons z rest)
  show ?thesis
  proof (cases rest)
    case Nil
    with Cons show ?thesis by (simp add: nonDecimalIntegerLiteral_def)
  next
    case (Cons x digits)
    with \<open>v = z # rest\<close> assms have x: "isDecimalDigit x" by simp
    have "x \<noteq> CHR ''x''" "x \<noteq> CHR ''X''" "x \<noteq> CHR ''o''" "x \<noteq> CHR ''O''"
      "x \<noteq> CHR ''b''" "x \<noteq> CHR ''B''"
      using x by (auto simp: isDecimalDigit_def)
    then show ?thesis
      unfolding \<open>v = z # rest\<close> Cons
      by (cases digits) (simp_all add: nonDecimalIntegerLiteral_def isDigitOfRadix_def)
  qed
qed

lemma toNumber_decimalDigits:
  assumes "v \<noteq> []" and "list_all isDecimalDigit v"
  shows "toNumber v = Decimal False (digitsValue 10 v) 0"
proof -
  from assms(1) obtain c t where v: "v = c # t" by (cases v) auto
  with assms(2) have c: "isDecimalDigit c" by simp
  then have sign: "c \<noteq> CHR ''+''" "c \<noteq> CHR ''-''"
    by (auto simp: isDecimalDigit_def)
  have "\<not> isDecimalDigit (CHR ''I'')" by (simp add: isDecimalDigit_def)
  with c v have inf: "v \<noteq> ''Infinity''" by auto
  have whole: "takeWhile isDecimalDigit v = v" and after: "dropWhile isDecimalDigit v = []"
    using assms(2) by (simp_all add: list_all_iff)
  have literal: "unsignedDecimalLiteral False v = Decimal False (digitsValue 10 v) 0"
    using assms(1) by (simp add: unsignedDecimalLiteral_def inf whole after)
  show ?thesis
    using sign trim_decimalDigits[OF assms] nonDecimalIntegerLiteral_decimalDigits[OF assms(2)]
      literal
    unfolding v by (simp add: toNumber_def Let_def)
qed

lemma greaterThanZero_decimalDigits:
  "v \<noteq> [] \<Longrightarrow> list_all isDecimalDigit v \<Longrightarrow>
     greaterThanZero (toNumber v) \<longleftrightarrow> 0 < digitsValue 10 v"
  by (simp add: toNumber_decimalDigits greaterThanZero_def)

text \<open>
  Claim C8, as amended.  Whenever \<open>createLabelsForIssue\<close> returns a list, the list
  holds \<open>severity.v\<close>, \<open>type.v\<close>, \<open>response.v\<close> and \<open>status.v\<close> exactly for the value
  \<open>v\<close> of an attribute that is set and not empty, \<open>pending.v\<close> exactly when in addition
  \<open>+v > 0\<close> (for a count \<open>v\<close> written in decimal digits: exactly when the count is not
  zero), and the bare tokens \<open>duplicate\<close> and \<open>unsure\<close> exactly when the flag is true.
  In the phase \<open>issuesViewer\<close>, the bug-report phase, a list is always returned and
  none of its labels is a tutorial or a team label.  In any other phase an issue
  without a team makes \<open>createLabelsForIssue\<close> throw, and for an issue with a team the
  list is the pair \<open>tutorial.p0-p1\<close>, \<open>team.p2\<close> followed by the labels of the
  bug-report phase, where \<open>p0\<close>, \<open>p1\<close>, \<open>p2\<close> are the first three pieces of the team
  identifier split at \<open>-\<close> (a missing piece prints as \<open>undefined\<close>): for a team
  identifier \<open>a-b-c\<close> the pair is \<open>tutorial.a-b\<close>, \<open>team.c\<close>.
\<close>

theorem labels_of_an_issue:
  "(currentPhase sv = Some issuesViewer \<longrightarrow>
      (\<exists>ls. createLabelsForIssue sv issue = Inr ls
          \<and> (\<forall>l \<in> set ls. stripPrefix ''tutorial.'' l = None \<and> stripPrefix ''team.'' l = None)))
   \<and> (currentPhase sv \<noteq> Some issuesViewer \<and> teamAssigned issue = None \<longrightarrow>
        createLabelsForIssue sv issue = Inl TypeError)
   \<and> (\<forall>team. currentPhase sv \<noteq> Some issuesViewer \<and> teamAssigned issue = Some team \<longrightarrow>
        (\<exists>rest. createLabelsForIssue (sv\<lparr>currentPhase := Some issuesViewer\<rparr>) issue = Inr rest
            \<and> createLabelsForIssue sv issue =
                Inr ((''tutorial.''
                        @ templateElement (splitChars (\<lambda>c. c = CHR ''-'') (team_id team)) 0
                        @ ''-''
                        @ templateElement (splitChars (\<lambda>c. c = CHR ''-'') (team_id team)) 1)
                     # (''team.''
                        @ templateElement (splitChars (\<lambda>c. c = CHR ''-'') (team_id team)) 2)
                     # rest)))
   \<and> (\<forall>team a b c. currentPhase sv \<noteq> Some issuesViewer \<and> teamAssigned issue = Some team
          \<and> team_id team = a @ ''-'' @ b @ ''-'' @ c
          \<and> CHR ''-'' \<notin> set a \<union> set b \<union> set c \<longrightarrow>
        (\<exists>rest. createLabelsForIssue (sv\<lparr>currentPhase := Some issuesViewer\<rparr>) issue = Inr rest
            \<and> createLabelsForIssue sv issue =
                Inr ((''tutorial.'' @ a @ ''-'' @ b) # (''team.'' @ c) # rest)))
   \<and> (\<forall>ls. createLabelsForIssue sv issue = Inr ls \<longrightarrow>
          (\<forall>v. ''severity.'' @ v \<in> set ls \<longleftrightarrow> severity issue = Some v \<and> v \<noteq> [])
        \<and> (\<forall>v. ''type.'' @ v \<in> set ls \<longleftrightarrow> type issue = Some v \<and> v \<noteq> [])
        \<and> (\<forall>v. ''response.'' @ v \<in> set ls \<longleftrightarrow> responseTag issue = Some v \<and> v \<noteq> [])
        \<and> (\<forall>v. ''status.'' @ v \<in> set ls \<longleftrightarrow> status issue = Some v \<and> v \<noteq> [])
        \<and> (\<forall>v. ''pending.'' @ v \<in> set ls \<longleftrightarrow>
                 pending issue = Some v \<and> v \<noteq> [] \<and> greaterThanZero (toNumber v))
        \<and> (\<forall>v. v \<noteq> [] \<and> list_all isDecimalDigit v \<longrightarrow>
                 (''pending.'' @ v \<in> set ls \<longleftrightarrow> pending issue = Some v \<and> 0 < digitsValue 10 v))
        \<and> (''duplicate'' \<in> set ls \<longleftrightarrow> duplicated issue = Some True)
        \<and> (''unsure'' \<in> set ls \<longleftrightarrow> unsure issue = Some True))"
proof -
  let ?viewer = "sv\<lparr>currentPhase := Some issuesViewer\<rparr>"
  have rest: "createLabelsForIssue ?viewer issue = Inr (attributeLabels issue)"
    by (rule createLabelsForIssue_viewer) simp
  have c1: "currentPhase sv = Some issuesViewer \<longrightarrow>
      (\<exists>ls. createLabelsForIssue sv issue = Inr ls
          \<and> (\<forall>l \<in> set ls. stripPrefix ''tutorial.'' l = None \<and> stripPrefix ''team.'' l = None))"
  proof
    assume phase: "currentPhase sv = Some issuesViewer"
    have "stripPrefix ''tutorial.'' l = None \<and> stripPrefix ''team.'' l = None"
      if "l \<in> set (attributeLabels issue)" for l
    proof -
      from that have
        "(\<exists>v. severity issue = Some v \<and> v \<noteq> [] \<and> l = ''severity.'' @ v)
       \<or> (\<exists>v. type issue = Some v \<and> v \<noteq> [] \<and> l = ''type.'' @ v)
       \<or> (\<exists>v. responseTag issue = Some v \<and> v \<noteq> [] \<and> l = ''response.'' @ v)
       \<or> (duplicated issue = Some True \<and> l = ''duplicate'')
       \<or> (\<exists>v. status issue = Some v \<and> v \<noteq> [] \<and> l = ''status.'' @ v)
       \<or> (\<exists>v. pending issue = Some v \<and> v \<noteq> [] \<and> greaterThanZero (toNumber v)
                \<and> l = ''pending.'' @ v)
       \<or> (unsure issue = Some True \<and> l = ''unsure'')"
        by (simp only: in_attributeLabels)
      then show ?thesis by (elim disjE exE conjE) simp_all
    qed
    then show "\<exists>ls. createLabelsForIssue sv issue = Inr ls
          \<and> (\<forall>l \<in> set ls. stripPrefix ''tutorial.'' l = None \<and> stripPrefix ''team.'' l = None)"
      unfolding createLabelsForIssue_viewer[OF phase] by blast
  qed
  have c2: "currentPhase sv \<noteq> Some issuesViewer \<and> teamAssigned issue = None \<longrightarrow>
        createLabelsForIssue sv issue = Inl TypeError"
    by (simp add: createLabelsForIssue_no_team)
  have c3: "\<forall>team. currentPhase sv \<noteq> Some issuesViewer \<and> teamAssigned issue = Some team \<longrightarrow>
        (\<exists>rest. createLabelsForIssue ?viewer issue = Inr rest
            \<and> createLabelsForIssue sv issue =
                Inr ((''tutorial.''
                        @ templateElement (splitChars (\<lambda>c. c = CHR ''-'') (team_id team)) 0
                        @ ''-''
                        @ templateElement (splitChars (\<lambda>c. c = CHR ''-'') (team_id team)) 1)
                     # (''team.''
                        @ templateElement (splitChars (\<lambda>c. c = CHR ''-'') (team_id team)) 2)
                     # rest))"
  proof (intro allI impI)
    fix team
    assume a: "currentPhase sv \<noteq> Some issuesViewer \<and> teamAssigned issue = Some team"
    show "\<exists>rest. createLabelsForIssue ?viewer issue = Inr rest
            \<and> createLabelsForIssue sv issue =
                Inr ((''tutorial.''
                        @ templateElement (splitChars (\<lambda>c. c = CHR ''-'') (team_id team)) 0
                        @ ''-''
                        @ templateElement (splitChars (\<lambda>c. c = CHR ''-'') (team_id team)) 1)
                     # (''team.''
                        @ templateElement (splitChars (\<lambda>c. c = CHR ''-'') (team_id team)) 2)
                     # rest)"
      apply (rule exI[of _ "attributeLabels issue"])
      apply (rule conjI)
       apply (rule rest)
      apply (rule createLabelsForIssue_team[OF conjunct1[OF a] conjunct2[OF a]])
      done
  qed
  have c4: "\<forall>team a b c. currentPhase sv \<noteq> Some issuesViewer \<and> teamAssigned issue = Some team
          \<and> team_id team = a @ ''-'' @ b @ ''-'' @ c
          \<and> CHR ''-'' \<notin> set a \<union> set b \<union> set c \<longrightarrow>
        (\<exists>rest. createLabelsForIssue ?viewer issue = Inr rest
            \<and> createLabelsForIssue sv issue =
                Inr ((''tutorial.'' @ a @ ''-'' @ b) # (''team.'' @ c) # rest))"
  proof (intro allI impI)
    fix team a b c
    assume a: "currentPhase sv \<noteq> Some issuesViewer \<and> teamAssigned issue = Some team
          \<and> team_id team = a @ ''-'' @ b @ ''-'' @ c
          \<and> CHR ''-'' \<notin> set a \<union> set b \<union> set c"
    then have pieces: "splitChars (\<lambda>c. c = CHR ''-'') (team_id team) = [a, b, c]"
      using splitChars_three[of a b c] by simp
    have "createLabelsForIssue sv issue =
                Inr ((''tutorial.'' @ a @ ''-'' @ b) # (''team.'' @ c) # attributeLabels issue)"
      unfolding createLabelsForIssue_team[OF conjunct1[OF a] conjunct1[OF conjunct2[OF a]]] pieces
      by (simp add: templateElement_def)
    then show "\<exists>rest. createLabelsForIssue ?viewer issue = Inr rest
            \<and> createLabelsForIssue sv issue =
                Inr ((''tutorial.'' @ a @ ''-'' @ b) # (''team.'' @ c) # rest)"
      using rest by blast
  qed
  have c5: "(\<forall>v. ''severity.'' @ v \<in> set ls \<longleftrightarrow> severity issue = Some v \<and> v \<noteq> [])
        \<and> (\<forall>v. ''type.'' @ v \<in> set ls \<longleftrightarrow> type issue = Some v \<and> v \<noteq> [])
        \<and> (\<forall>v. ''response.'' @ v \<in> set ls \<longleftrightarrow> responseTag issue = Some v \<and> v \<noteq> [])
        \<and> (\<forall>v. ''status.'' @ v \<in> set ls \<longleftrightarrow> status issue = Some v \<and> v \<noteq> [])
        \<and> (\<forall>v. ''pending.'' @ v \<in> set ls \<longleftrightarrow>
                 pending issue = Some v \<and> v \<noteq> [] \<and> greaterThanZero (toNumber v))
        \<and> (\<forall>v. v \<noteq> [] \<and> list_all isDecimalDigit v \<longrightarrow>
                 (''pending.'' @ v \<in> set ls \<longleftrightarrow> pending issue = Some v \<and> 0 < digitsValue 10 v))
        \<and> (''duplicate'' \<in> set ls \<longleftrightarrow> duplicated issue = Some True)
        \<and> (''unsure'' \<in> set ls \<longleftrightarrow> unsure issue = Some True)"
    if enc: "createLabelsForIssue sv issue = Inr ls" for ls
  proof -
    obtain teamLabels where ls: "ls = teamLabels @ attributeLabels issue"
      and team: "\<forall>l \<in> set teamLabels. take 2 l = ''tu'' \<or> take 2 l = ''te''"
    proof (cases "currentPhase sv = Some issuesViewer")
      case True
      with enc have "ls = [] @ attributeLabels issue"
        by (simp add: createLabelsForIssue_viewer)
      then show ?thesis using that[of "[]"] by simp
    next
      case False
      with enc obtain t where t: "teamAssigned issue = Some t"
        by (cases "teamAssigned issue") (simp_all add: createLabelsForIssue_no_team)
      from enc have "ls =
           [''tutorial.'' @ templateElement (splitChars (\<lambda>c. c = CHR ''-'') (team_id t)) 0
               @ ''-'' @ templateElement (splitChars (\<lambda>c. c = CHR ''-'') (team_id t)) 1,
            ''team.'' @ templateElement (splitChars (\<lambda>c. c = CHR ''-'') (team_id t)) 2]
           @ attributeLabels issue"
        unfolding createLabelsForIssue_team[OF False t] by simp
      then show ?thesis
        by (rule that) simp
    qed
    have mem: "l \<in> set ls \<longleftrightarrow> l \<in> set teamLabels \<or> l \<in> set (attributeLabels issue)" for l
      unfolding ls by simp
    have noteam: "l \<notin> set teamLabels" if "take 2 l \<noteq> ''tu''" and "take 2 l \<noteq> ''te''" for l
      using team that by blast
    have sev: "''severity.'' @ v \<in> set ls \<longleftrightarrow> severity issue = Some v \<and> v \<noteq> []" for v
    proof -
      have "''severity.'' @ v \<notin> set teamLabels" by (rule noteam) simp_all
      then show ?thesis by (simp add: mem in_attributeLabels; blast)
    qed
    have kind: "''type.'' @ v \<in> set ls \<longleftrightarrow> type issue = Some v \<and> v \<noteq> []" for v
    proof -
      have "''type.'' @ v \<notin> set teamLabels" by (rule noteam) simp_all
      then show ?thesis by (simp add: mem in_attributeLabels; blast)
    qed
    have resp: "''response.'' @ v \<in> set ls \<longleftrightarrow> responseTag issue = Some v \<and> v \<noteq> []" for v
    proof -
      have "''response.'' @ v \<notin> set teamLabels" by (rule noteam) simp_all
      then show ?thesis by (simp add: mem in_attributeLabels; blast)
    qed
    have stat: "''status.'' @ v \<in> set ls \<longleftrightarrow> status issue = Some v \<and> v \<noteq> []" for v
    proof -
      have "''status.'' @ v \<notin> set teamLabels" by (rule noteam) simp_all
      then show ?thesis by (simp add: mem in_attributeLabels; blast)
    qed
    have pend: "''pending.'' @ v \<in> set ls \<longleftrightarrow>
                 pending issue = Some v \<and> v \<noteq> [] \<and> greaterThanZero (toNumber v)" for v
    proof -
      have "''pending.'' @ v \<notin> set teamLabels" by (rule noteam) simp_all
      then show ?thesis by (simp add: mem in_attributeLabels; blast)
    qed
    have count: "''pending.'' @ v \<in> set ls \<longleftrightarrow> pending issue = Some v \<and> 0 < digitsValue 10 v"
      if digits: "v \<noteq> [] \<and> list_all isDecimalDigit v" for v
    proof -
      have "greaterThanZero (toNumber v) \<longleftrightarrow> 0 < digitsValue 10 v"
        using digits by (simp add: greaterThanZero_decimalDigits)
      with pend[of v] digits show ?thesis by blast
    qed
    have dup: "''duplicate'' \<in> set ls \<longleftrightarrow> duplicated issue = Some True"
    proof -
      have "''duplicate'' \<notin> set teamLabels" by (rule noteam) simp_all
      then show ?thesis by (simp add: mem in_attributeLabels)
    qed
    have uns: "''unsure'' \<in> set ls \<longleftrightarrow> unsure issue = Some True"
    proof -
      have "''unsure'' \<notin> set teamLabels" by (rule noteam) simp_all
      then show ?thesis by (simp add: mem in_attributeLabels)
    qed
    show ?thesis
      apply (intro conjI allI impI)
             apply (rule sev)
            apply (rule kind)
           apply (rule resp)
          apply (rule stat)
         apply (rule pend)
        apply (erule count)
       apply (rule dup)
      apply (rule uns)
      done
  qed
  show ?thesis
    apply (intro conjI)
        apply (rule c1)
       apply (rule c2)
      apply (rule c3)
     apply (rule c4)
    apply (intro allI impI)
    apply (erule c5)
    done
qed

theorem labels_of_an_issue_witness:
  "currentPhase exampleServices = Some issuesViewer
   \<and> createLabelsForIssue exampleServices exampleIssueWithTeam
       = Inr [''severity.High'', ''type.FunctionalityBug'', ''duplicate'', ''pending.2'']
   \<and> currentPhase otherPhaseServices \<noteq> Some issuesViewer
   \<and> teamAssigned exampleIssueWithTeam
       = Some \<lparr> team_id = ''CS2103T'' @ ''-'' @ ''W12'' @ ''-'' @ ''3'' \<rparr>
   \<and> createLabelsForIssue otherPhaseServices exampleIssueWithTeam
       = Inr [''tutorial.CS2103T-W12'', ''team.3'',
              ''severity.High'', ''type.FunctionalityBug'', ''duplicate'', ''pending.2'']
   \<and> teamAssigned (builtIssue exampleExternals exampleRecord) = None
   \<and> createLabelsForIssue otherPhaseServices (builtIssue exampleExternals exampleRecord)
       = Inl TypeError
   \<and> pending (exampleIssueWithTeam\<lparr>pending := Some ''0''\<rparr>) = Some ''0''
   \<and> ''pending.0'' \<notin> set (projr (createLabelsForIssue exampleServices
                                      (exampleIssueWithTeam\<lparr>pending := Some ''0''\<rparr>)))
   \<and> ''pending.2'' \<in> set (projr (createLabelsForIssue exampleServices exampleIssueWithTeam))"
proof -
  let ?team = "\<lparr> team_id = ''CS2103T'' @ ''-'' @ ''W12'' @ ''-'' @ ''3'' \<rparr>"
  let ?zero = "exampleIssueWithTeam\<lparr>pending := Some ''0''\<rparr>"
  let ?bare = "builtIssue exampleExternals exampleRecord"
  have viewer: "currentPhase exampleServices = Some issuesViewer"
    and other: "currentPhase otherPhaseServices \<noteq> Some issuesViewer"
    and restored: "otherPhaseServices\<lparr>currentPhase := Some issuesViewer\<rparr> = exampleServices"
    by (simp_all add: exampleServices_def otherPhaseServices_def)
  have attrs: "severity exampleIssueWithTeam = Some ''High''"
    "type exampleIssueWithTeam = Some ''FunctionalityBug''"
    "responseTag exampleIssueWithTeam = None" "status exampleIssueWithTeam = None"
    "duplicated exampleIssueWithTeam = Some True" "unsure exampleIssueWithTeam = None"
    "pending exampleIssueWithTeam = Some ''2''"
    by (simp_all add: exampleIssueWithTeam_def builtIssue_def createPhaseBugReportingIssue_def
          new_Issue_def Let_def exampleExternals_def exampleRecord_def
          findLabel_def LABELS_severity_def LABELS_type_def LABELS_response_def
          LABELS_status_def)
  have team: "teamAssigned exampleIssueWithTeam = Some ?team"
    by (simp add: exampleIssueWithTeam_def)
  have noTeam: "teamAssigned ?bare = None"
    by (simp add: builtIssue_def createPhaseBugReportingIssue_def new_Issue_def Let_def)
  have two: "greaterThanZero (toNumber ''2'')"
    by (simp add: greaterThanZero_decimalDigits isDecimalDigit_def digitsValue_def digitValue_def)
  have inViewer: "createLabelsForIssue exampleServices exampleIssueWithTeam
       = Inr [''severity.High'', ''type.FunctionalityBug'', ''duplicate'', ''pending.2'']"
    by (simp add: createLabelsForIssue_def viewer attrs two labelIfSet_def createLabel_def)
  note whole = labels_of_an_issue[of otherPhaseServices exampleIssueWithTeam]
  note shaped = conjunct1[OF conjunct2[OF conjunct2[OF conjunct2[OF whole]]]]
  have shape: "currentPhase otherPhaseServices \<noteq> Some issuesViewer
          \<and> teamAssigned exampleIssueWithTeam = Some ?team
          \<and> team_id ?team = ''CS2103T'' @ ''-'' @ ''W12'' @ ''-'' @ ''3''
          \<and> CHR ''-'' \<notin> set ''CS2103T'' \<union> set ''W12'' \<union> set ''3''"
    using other team by simp
  from shaped[rule_format, OF shape] obtain rest where
    r: "createLabelsForIssue (otherPhaseServices\<lparr>currentPhase := Some issuesViewer\<rparr>)
           exampleIssueWithTeam = Inr rest
        \<and> createLabelsForIssue otherPhaseServices exampleIssueWithTeam =
            Inr ((''tutorial.'' @ ''CS2103T'' @ ''-'' @ ''W12'') # (''team.'' @ ''3'') # rest)"
    ..
  from conjunct1[OF r] have "rest = [''severity.High'', ''type.FunctionalityBug'', ''duplicate'', ''pending.2'']"
    unfolding restored inViewer by simp
  with conjunct2[OF r] have inOther: "createLabelsForIssue otherPhaseServices exampleIssueWithTeam
       = Inr [''tutorial.CS2103T-W12'', ''team.3'',
              ''severity.High'', ''type.FunctionalityBug'', ''duplicate'', ''pending.2'']"
    by simp
  have thrown: "createLabelsForIssue otherPhaseServices ?bare = Inl TypeError"
    using conjunct1[OF conjunct2[OF labels_of_an_issue[of otherPhaseServices ?bare]]] other noTeam
    by simp
  have pendingZero: "pending ?zero = Some ''0''"
    by simp
  note forZero = labels_of_an_issue[of exampleServices ?zero]
  from mp[OF conjunct1[OF forZero] viewer] obtain ls where
    ls: "createLabelsForIssue exampleServices ?zero = Inr ls
         \<and> (\<forall>l \<in> set ls. stripPrefix ''tutorial.'' l = None \<and> stripPrefix ''team.'' l = None)"
    ..
  note encoded = mp[OF spec[OF conjunct2[OF conjunct2[OF conjunct2[OF conjunct2[OF forZero]]]]]
                    conjunct1[OF ls]]
  note counts = conjunct1[OF conjunct2[OF conjunct2[OF conjunct2[OF conjunct2[OF
                  conjunct2[OF encoded]]]]]]
  have digits: "''0'' \<noteq> [] \<and> list_all isDecimalDigit ''0''"
    by (simp add: isDecimalDigit_def)
  have "digitsValue 10 ''0'' = 0"
    by (simp add: digitsValue_def digitValue_def)
  with mp[OF spec[OF counts] digits] have "''pending.'' @ ''0'' \<notin> set ls"
    by simp
  then have absent: "''pending.0'' \<notin> set (projr (createLabelsForIssue exampleServices ?zero))"
    by (simp add: conjunct1[OF ls])
  have present: "''pending.2'' \<in> set (projr (createLabelsForIssue exampleServices exampleIssueWithTeam))"
    by (simp add: inViewer)
  show ?thesis
    using viewer inViewer other team inOther noTeam thrown pendingZero absent present
    by (intro conjI)
qed

text \<open>
  The claim as stated has the team labels skipped outside the bug-report phase.  For
  an issue of team \<open>CS2103T-W12-3\<close> they are skipped in the bug-report phase and are
  the first two labels in another phase.
\<close>

theorem team_labels_by_phase_counterexample:
  "currentPhase exampleServices = Some issuesViewer
   \<and> createLabelsForIssue exampleServices exampleIssueWithTeam
       = Inr [''severity.High'', ''type.FunctionalityBug'', ''duplicate'', ''pending.2'']
   \<and> currentPhase otherPhaseServices = Some (otherPhase ''phaseTeamResponse'')
   \<and> createLabelsForIssue otherPhaseServices exampleIssueWithTeam
       = Inr [''tutorial.CS2103T-W12'', ''team.3'',
              ''severity.High'', ''type.FunctionalityBug'', ''duplicate'', ''pending.2'']"
  by (simp add: createLabelsForIssue_def otherPhaseServices_def exampleServices_def
        exampleIssueWithTeam_def builtIssue_def createPhaseBugReportingIssue_def new_Issue_def
        Let_def exampleExternals_def exampleRecord_def findLabel_def LABELS_severity_def
        LABELS_type_def LABELS_response_def LABELS_duplicated_def LABELS_status_def
        LABELS_pending_def labelIfSet_def createLabel_def templateElement_def
        toNumber_def trim_def isWhiteSpace_def nonDecimalIntegerLiteral_def
        unsignedDecimalLiteral_def isDecimalDigit_def digitsValue_def digitValue_def
        greaterThanZero_def)

section \<open>Tutor moderation: disputes and resolutions\<close>

lemma zipDescriptions_fits:
  "i + length ds \<le> length os \<Longrightarrow>
     zipDescriptions ds i (Some os) = Inr (positionalZip ds (drop i os))"
proof (induction ds arbitrary: i)
  case Nil
  show ?case by (simp add: positionalZip_def)
next
  case (Cons d ds)
  then have i: "i < length os" and rest: "Suc i + length ds \<le> length os" by simp_all
  have "drop i os = os ! i # drop (Suc i) os"
    using i by (simp add: Cons_nth_drop_Suc)
  then show ?case
    using i Cons.IH[OF rest] by (simp add: positionalZip_def)
qed

lemma zipDescriptions_overflow:
  "i \<le> length os \<Longrightarrow> length os < i + length ds \<Longrightarrow>
     zipDescriptions ds i (Some os) = Inl TypeError"
proof (induction ds arbitrary: i)
  case Nil
  then show ?case by simp
next
  case (Cons d ds)
  show ?case
  proof (cases "i < length os")
    case True
    then have "Suc i \<le> length os" and "length os < Suc i + length ds"
      using Cons.prems by simp_all
    from Cons.IH[OF this] True show ?thesis by simp
  next
    case False
    then show ?thesis by simp
  qed
qed

lemma positionalZip_nth:
  "i < length resolutions \<Longrightarrow> i < length originals \<Longrightarrow>
     positionalZip resolutions originals ! i
       = (resolutions ! i)\<lparr>dispute_description := dispute_description (originals ! i)\<rparr>"
  by (simp add: positionalZip_def)

lemma length_positionalZip:
  "length (positionalZip resolutions originals) = min (length resolutions) (length originals)"
  by (simp add: positionalZip_def)

text \<open>
  Claim C9, as amended.  For an issue with a dispute list and a comment in which the
  single-comment moderation template finds a moderation section with no more
  resolutions than the issue has disputes, \<open>updateDispute\<close> runs the template on exactly
  that comment, sets the comment of the issue to the template's, and replaces the
  dispute list by the parsed resolutions, the resolution at index \<open>i\<close> taking the
  description that was at index \<open>i\<close> before the update.  The moderation-phase
  construction zips the resolutions of the comments with the disputes of the issue
  body by the same rule, when the template of the issue body has a description
  section and a dispute section, and the template of the comments has a moderation
  section and a comment, with no more resolutions than the body has disputes.
\<close>

theorem disputes_are_zipped_by_position:
  "(\<forall>old m. issueDisputes this = Some old
        \<and> moderation (newTutorModerationTodoTemplate ext [githubComment]) = Some m
        \<and> length (disputesToResolve m) \<le> length old \<longrightarrow>
        updateDispute ext githubComment this =
          (None, this\<lparr> issueComment := todo_comment (newTutorModerationTodoTemplate ext [githubComment]),
                       issueDisputes := Some (positionalZip (disputesToResolve m) old) \<rparr>)
        \<and> length (positionalZip (disputesToResolve m) old) = length (disputesToResolve m)
        \<and> (\<forall>i < length (disputesToResolve m).
              positionalZip (disputesToResolve m) old ! i
                = (disputesToResolve m ! i)\<lparr>dispute_description := dispute_description (old ! i)\<rparr>))
   \<and> (\<forall>d sect m c.
          template_description (newTutorModerationIssueTemplate ext record) = Some d
        \<and> dispute (newTutorModerationIssueTemplate ext record) = Some sect
        \<and> moderation (newTutorModerationTodoTemplate ext (gh_comments record)) = Some m
        \<and> todo_comment (newTutorModerationTodoTemplate ext (gh_comments record)) = Some c
        \<and> length (disputesToResolve m) \<le> length (disputes sect) \<longrightarrow>
        (\<exists>issue. createPhaseModerationIssue ext record teamData = Inr issue
           \<and> issueComment issue = Some c
           \<and> issueDisputes issue = Some (positionalZip (disputesToResolve m) (disputes sect))))"
proof (intro conjI allI impI)
  fix old m
  assume a: "issueDisputes this = Some old
        \<and> moderation (newTutorModerationTodoTemplate ext [githubComment]) = Some m
        \<and> length (disputesToResolve m) \<le> length old"
  then have z: "zipDescriptions (disputesToResolve m) 0 (Some old)
                  = Inr (positionalZip (disputesToResolve m) old)"
    using zipDescriptions_fits[of 0 "disputesToResolve m" old] by simp
  show "updateDispute ext githubComment this =
          (None, this\<lparr> issueComment := todo_comment (newTutorModerationTodoTemplate ext [githubComment]),
                       issueDisputes := Some (positionalZip (disputesToResolve m) old) \<rparr>)"
    using a z by (simp add: updateDispute_def Let_def)
  show "length (positionalZip (disputesToResolve m) old) = length (disputesToResolve m)"
    using a by (simp add: length_positionalZip)
  fix i
  assume "i < length (disputesToResolve m)"
  then show "positionalZip (disputesToResolve m) old ! i
                = (disputesToResolve m ! i)\<lparr>dispute_description := dispute_description (old ! i)\<rparr>"
    using a by (simp add: positionalZip_nth)
next
  fix d sect m c
  assume a: "template_description (newTutorModerationIssueTemplate ext record) = Some d
        \<and> dispute (newTutorModerationIssueTemplate ext record) = Some sect
        \<and> moderation (newTutorModerationTodoTemplate ext (gh_comments record)) = Some m
        \<and> todo_comment (newTutorModerationTodoTemplate ext (gh_comments record)) = Some c
        \<and> length (disputesToResolve m) \<le> length (disputes sect)"
  then have z: "zipDescriptions (disputesToResolve m) 0 (Some (disputes sect))
                  = Inr (positionalZip (disputesToResolve m) (disputes sect))"
    using zipDescriptions_fits[of 0 "disputesToResolve m" "disputes sect"] by simp
  show "\<exists>issue. createPhaseModerationIssue ext record teamData = Inr issue
           \<and> issueComment issue = Some c
           \<and> issueDisputes issue = Some (positionalZip (disputesToResolve m) (disputes sect))"
    using a z by (simp add: createPhaseModerationIssue_def new_Issue_Some Let_def)
qed

theorem disputes_are_zipped_by_position_witness:
  "issueDisputes exampleDisputedIssue
     = Some [disputeAbout ''Severity'' ''Team says Low'' [],
             disputeAbout ''Type'' ''Team says FeatureFlaw'' []]
   \<and> moderation (newTutorModerationTodoTemplate
        (resolvingExternals [disputeAbout ''Type'' [] ''Agree with the team'']) [exampleComment])
       = Some \<lparr> disputesToResolve = [disputeAbout ''Type'' [] ''Agree with the team''] \<rparr>
   \<and> fst (updateDispute (resolvingExternals [disputeAbout ''Type'' [] ''Agree with the team''])
             exampleComment exampleDisputedIssue) = None
   \<and> issueDisputes (snd (updateDispute
        (resolvingExternals [disputeAbout ''Type'' [] ''Agree with the team''])
        exampleComment exampleDisputedIssue))
       = Some [disputeAbout ''Type'' ''Team says Low'' ''Agree with the team'']
   \<and> template_description (newTutorModerationIssueTemplate exampleModeration exampleModerationRecord)
       = Some \<lparr> content = ''Crash when saving'' \<rparr>
   \<and> dispute (newTutorModerationIssueTemplate exampleModeration exampleModerationRecord)
       = Some \<lparr> disputes = [disputeAbout ''Severity'' ''Team says Low'' [],
                             disputeAbout ''Type'' ''Team says FeatureFlaw'' []] \<rparr>
   \<and> moderation (newTutorModerationTodoTemplate exampleModeration
                    (gh_comments exampleModerationRecord))
       = Some \<lparr> disputesToResolve = [disputeAbout ''Type'' [] ''Agree with the team''] \<rparr>
   \<and> todo_comment (newTutorModerationTodoTemplate exampleModeration
                      (gh_comments exampleModerationRecord))
       = Some \<lparr> issueComment_id = 11, issueComment_description = ''# Tutor Moderation'' \<rparr>
   \<and> \<not> isl (createPhaseModerationIssue exampleModeration exampleModerationRecord None)
   \<and> issueComment (projr (createPhaseModerationIssue exampleModeration exampleModerationRecord None))
       = Some \<lparr> issueComment_id = 11, issueComment_description = ''# Tutor Moderation'' \<rparr>
   \<and> issueDisputes (projr (createPhaseModerationIssue exampleModeration exampleModerationRecord None))
       = Some [disputeAbout ''Type'' ''Team says Low'' ''Agree with the team'']"
proof -
  let ?ext = "resolvingExternals [disputeAbout ''Type'' [] ''Agree with the team'']"
  let ?old = "[disputeAbout ''Severity'' ''Team says Low'' [],
               disputeAbout ''Type'' ''Team says FeatureFlaw'' []]"
  let ?m = "\<lparr> disputesToResolve = [disputeAbout ''Type'' [] ''Agree with the team''] \<rparr>"
  let ?c = "\<lparr> issueComment_id = 11, issueComment_description = ''# Tutor Moderation'' \<rparr>"
  have a: "issueDisputes exampleDisputedIssue = Some ?old"
    by (simp add: exampleDisputedIssue_def)
  have b: "moderation (newTutorModerationTodoTemplate ?ext [exampleComment]) = Some ?m"
    by (simp add: resolvingExternals_def)
  have c: "length (disputesToResolve ?m) \<le> length ?old"
    by simp
  have z: "positionalZip [disputeAbout ''Type'' [] ''Agree with the team''] ?old
           = [disputeAbout ''Type'' ''Team says Low'' ''Agree with the team'']"
    by (simp add: positionalZip_def disputeAbout_def)
  have hyp1: "issueDisputes exampleDisputedIssue = Some ?old
        \<and> moderation (newTutorModerationTodoTemplate ?ext [exampleComment]) = Some ?m
        \<and> length (disputesToResolve ?m) \<le> length ?old"
    using a b c by (intro conjI)
  note update = conjunct1[OF disputes_are_zipped_by_position
                               [of exampleDisputedIssue ?ext exampleComment], rule_format, OF hyp1]
  from conjunct1[OF update]
  have u: "fst (updateDispute ?ext exampleComment exampleDisputedIssue) = None"
    and v: "issueDisputes (snd (updateDispute ?ext exampleComment exampleDisputedIssue))
              = Some [disputeAbout ''Type'' ''Team says Low'' ''Agree with the team'']"
    by (simp_all add: z)
  have d: "template_description (newTutorModerationIssueTemplate exampleModeration exampleModerationRecord)
             = Some \<lparr> content = ''Crash when saving'' \<rparr>"
    and e: "dispute (newTutorModerationIssueTemplate exampleModeration exampleModerationRecord)
             = Some \<lparr> disputes = ?old \<rparr>"
    and f: "moderation (newTutorModerationTodoTemplate exampleModeration
                    (gh_comments exampleModerationRecord)) = Some ?m"
    and g: "todo_comment (newTutorModerationTodoTemplate exampleModeration
                    (gh_comments exampleModerationRecord)) = Some ?c"
    by (simp_all add: exampleModeration_def resolvingExternals_def exampleModerationRecord_def
          exampleComment_def)
  have h: "length (disputesToResolve ?m) \<le> length (disputes \<lparr> disputes = ?old \<rparr>)"
    by simp
  have hyp2: "template_description (newTutorModerationIssueTemplate exampleModeration exampleModerationRecord)
             = Some \<lparr> content = ''Crash when saving'' \<rparr>
        \<and> dispute (newTutorModerationIssueTemplate exampleModeration exampleModerationRecord)
             = Some \<lparr> disputes = ?old \<rparr>
        \<and> moderation (newTutorModerationTodoTemplate exampleModeration
                    (gh_comments exampleModerationRecord)) = Some ?m
        \<and> todo_comment (newTutorModerationTodoTemplate exampleModeration
                    (gh_comments exampleModerationRecord)) = Some ?c
        \<and> length (disputesToResolve ?m) \<le> length (disputes \<lparr> disputes = ?old \<rparr>)"
    using d e f g h by (intro conjI)
  from conjunct2[OF disputes_are_zipped_by_position
                      [of exampleDisputedIssue exampleModeration exampleComment
                          exampleModerationRecord None],
                 rule_format, OF hyp2]
  obtain issue where
    built: "createPhaseModerationIssue exampleModeration exampleModerationRecord None = Inr issue
            \<and> issueComment issue = Some ?c
            \<and> issueDisputes issue
                = Some (positionalZip (disputesToResolve ?m) (disputes \<lparr> disputes = ?old \<rparr>))"
    ..
  from built have i: "\<not> isl (createPhaseModerationIssue exampleModeration exampleModerationRecord None)"
    and j: "issueComment (projr (createPhaseModerationIssue exampleModeration exampleModerationRecord None))
              = Some ?c"
    and k: "issueDisputes (projr (createPhaseModerationIssue exampleModeration exampleModerationRecord None))
              = Some [disputeAbout ''Type'' ''Team says Low'' ''Agree with the team'']"
    by (simp_all add: z)
  show ?thesis
    using a b u v d e f g i j k by (intro conjI)
qed

text \<open>
  The claim as stated covers every comment.  For a comment in which the template
  finds three resolutions, on an issue with two disputes, \<open>updateDispute\<close> throws at
  index 2 and the dispute list of the issue is the one it had before.
\<close>

theorem updateDispute_more_resolutions_counterexample:
  "issueDisputes exampleDisputedIssue
     = Some [disputeAbout ''Severity'' ''Team says Low'' [],
             disputeAbout ''Type'' ''Team says FeatureFlaw'' []]
   \<and> updateDispute
        (resolvingExternals [disputeAbout ''Severity'' [] ''Agree'', disputeAbout ''Type'' [] ''Agree'',
                             disputeAbout ''Duplicate'' [] ''Disagree''])
        exampleComment exampleDisputedIssue
       = (Some TypeError,
          exampleDisputedIssue
            \<lparr> issueComment := Some \<lparr> issueComment_id = 11,
                                     issueComment_description = ''# Tutor Moderation'' \<rparr> \<rparr>)"
  by (simp add: updateDispute_def resolvingExternals_def exampleDisputedIssue_def
        exampleComment_def Let_def)

end
